theory Spec2Isabelle
  imports Main
begin

section \<open>The task table\<close>

text \<open>
  The task tools of \<^verbatim>\<open>mcp_server/server.py\<close> work on the rows of one table. A row
  carries the seven attributes the tools read and write. The identifier field is called
  \<open>task_id\<close> here (\<open>id\<close> is the identity function of HOL). Instants returned by
  \<^verbatim>\<open>datetime.utcnow()\<close> are opaque; they are numbered.
\<close>

type_synonym timestamp = nat

record Task =
  task_id :: string
  title :: string
  description :: string
  completed :: bool
  user_id :: string
  created_at :: timestamp
  updated_at :: timestamp

text \<open>
  The table is the sequence of its rows in the order a full scan returns them.
  \<^verbatim>\<open>select(Task).where(Task.user_id == user_id)\<close> followed by \<^verbatim>\<open>.all()\<close>
  keeps the rows of one owner, in scan order; no ordering clause is applied anywhere.
\<close>

type_synonym table = "Task list"

definition get_user_tasks :: "string \<Rightarrow> table \<Rightarrow> Task list" where
  "get_user_tasks uid db = filter (\<lambda>t. user_id t = uid) db"

text \<open>
  Modelled from the spec: the class \<^verbatim>\<open>Task\<close> of \<^verbatim>\<open>backend/models/task_models.py\<close>
  is not part of the sources. The spec keys task rows by an identifier that is unique within
  the store and assigned at creation; a new row goes to the end of the scan order. So
  inserting a row whose identifier is already present is refused by the store, an update
  rewrites the row that has the object's key, and a delete removes the row that has the
  object's key.
\<close>

datatype exn =
    HTTPException (status_code: nat) (detail: detail)
  | IntegrityError
  | RequestValidationError
and detail =
    Not_Found
  | Title_is_required
  | User_ID_is_required
  | At_least_one_field_must_be_provided
  | Task_at_position_not_found int
  | Error_creating_task exn
  | Error_retrieving_tasks exn
  | Error_updating_task exn
  | Error_updating_task_completion exn
  | Error_deleting_task exn

definition session_insert :: "Task \<Rightarrow> table \<Rightarrow> exn + table" where
  "session_insert row db =
     (if task_id row \<in> set (map task_id db) then Inl IntegrityError else Inr (db @ [row]))"

definition session_update :: "Task \<Rightarrow> table \<Rightarrow> table" where
  "session_update row db = map (\<lambda>t. if task_id t = task_id row then row else t) db"

definition session_delete :: "Task \<Rightarrow> table \<Rightarrow> table" where
  "session_delete row db = filter (\<lambda>t. task_id t \<noteq> task_id row) db"

definition unique_ids :: "table \<Rightarrow> bool" where
  "unique_ids db = distinct (map task_id db)"

section \<open>Requests and responses of the task tools\<close>

record AddTaskRequest =
  add_title :: string
  add_description :: string
  add_user_id :: string

record ListTasksRequest =
  list_user_id :: string

record UpdateTaskRequest =
  upd_task_position :: int
  upd_user_id :: string
  upd_title :: "string option"
  upd_description :: "string option"

record CompleteTaskRequest =
  cmp_task_position :: int
  cmp_user_id :: string
  cmp_completed :: bool

record DeleteTaskRequest =
  del_task_position :: int
  del_user_id :: string

text \<open>
  \<^verbatim>\<open>TaskResponse\<close> is built field by field from a row; the listing adds the key
  \<^verbatim>\<open>position\<close> to the dictionary made from it.
\<close>

record TaskResponse =
  resp_id :: string
  resp_title :: string
  resp_description :: string
  resp_completed :: bool
  resp_user_id :: string
  resp_created_at :: timestamp
  resp_updated_at :: timestamp

definition task_response :: "Task \<Rightarrow> TaskResponse" where
  "task_response t =
     \<lparr>resp_id = task_id t, resp_title = title t, resp_description = description t,
      resp_completed = completed t, resp_user_id = user_id t,
      resp_created_at = created_at t, resp_updated_at = updated_at t\<rparr>"

record task_data =
  td_task :: TaskResponse
  position :: int

record summary =
  total :: nat
  pending :: nat
  completed_total :: nat

record listing =
  list_tasks :: "task_data list"
  list_summary :: summary
  list_pending_tasks :: "task_data list"
  list_completed_tasks :: "task_data list"

text \<open>The bodies the tools return with status 200; each has \<^verbatim>\<open>"success": True\<close>.\<close>

datatype tool_body =
    Task_body TaskResponse
  | List_body listing
  | Deleted_body int

section \<open>Position lookup\<close>

text \<open>
  \<^verbatim>\<open>get_task_by_position\<close>: a fresh scan of the owner's rows, the range check, then the
  row at the 1-indexed position together with its 0-based index.
\<close>

definition get_task_by_position :: "string \<Rightarrow> int \<Rightarrow> table \<Rightarrow> exn + (Task \<times> int)" where
  "get_task_by_position uid pos db =
     (let tasks = get_user_tasks uid db in
      if pos < 1 \<or> pos > int (length tasks)
      then Inl (HTTPException 404 (Task_at_position_not_found pos))
      else Inr (tasks ! nat (pos - 1), pos - 1))"

section \<open>The task tools\<close>

text \<open>
  Python's \<^verbatim>\<open>str.strip()\<close> removes leading and trailing whitespace. Characters are read
  as code points below 256; these are the ones \<^verbatim>\<open>str.isspace\<close> accepts there.
\<close>

definition isspace :: "char \<Rightarrow> bool" where
  "isspace c = (of_char c \<in> {9, 10, 11, 12, 13, 28, 29, 30, 31, 32, 133, 160 :: nat})"

definition strip :: "string \<Rightarrow> string" where
  "strip s = rev (dropWhile isspace (rev (dropWhile isspace s)))"

text \<open>
  Each tool runs its body inside \<^verbatim>\<open>try\<close>; the handler \<^verbatim>\<open>except Exception as e\<close>
  turns whatever the body raised, an \<^verbatim>\<open>HTTPException\<close> included, into a new
  \<^verbatim>\<open>HTTPException\<close> with status 500 whose detail quotes the original. Nothing has been
  committed when the body raises, so the table stays as it was.
\<close>

definition reraise_500 ::
  "(exn \<Rightarrow> detail) \<Rightarrow> table \<Rightarrow> (exn + 'a) \<times> table \<Rightarrow> (exn + 'a) \<times> table" where
  "reraise_500 wrap db r =
     (case fst r of Inl e \<Rightarrow> (Inl (HTTPException 500 (wrap e)), db) | Inr v \<Rightarrow> r)"

text \<open>
  \<^verbatim>\<open>add_task_tool\<close>. The identifier the model class gives the new row and the two clock
  readings are inputs. The checks on the title and on the owner come before the
  \<^verbatim>\<open>try\<close>, so their status 400 reaches the caller.
\<close>

definition add_task_tool ::
  "string \<Rightarrow> timestamp \<Rightarrow> timestamp \<Rightarrow> AddTaskRequest \<Rightarrow> table \<Rightarrow> (exn + tool_body) \<times> table" where
  "add_task_tool new_id now1 now2 request db =
     (if add_title request = [] \<or> strip (add_title request) = []
      then (Inl (HTTPException 400 Title_is_required), db)
      else if add_user_id request = []
      then (Inl (HTTPException 400 User_ID_is_required), db)
      else reraise_500 Error_creating_task db
        (let db_task = \<lparr>task_id = new_id, title = add_title request,
                         description = add_description request, completed = False,
                         user_id = add_user_id request,
                         created_at = now1, updated_at = now2\<rparr>
         in case session_insert db_task db of
              Inl e \<Rightarrow> (Inl e, db)
            | Inr db' \<Rightarrow> (Inr (Task_body (task_response db_task)), db')))"

text \<open>
  \<^verbatim>\<open>list_tasks_tool\<close>. The loop \<^verbatim>\<open>for idx, task in enumerate(tasks, 1)\<close> builds the
  dictionary of each row, stores \<open>idx\<close> under \<^verbatim>\<open>position\<close> and appends it to the
  pending or to the completed list; the returned sequence is the pending list followed by
  the completed list.
\<close>

fun separate ::
  "(nat \<times> Task) list \<Rightarrow> task_data list \<times> task_data list \<Rightarrow> task_data list \<times> task_data list" where
  "separate [] acc = acc"
| "separate ((idx, task) # rest) (pend, done) =
     (let task_data = \<lparr>td_task = task_response task, position = int idx\<rparr> in
      if completed task then separate rest (pend, done @ [task_data])
      else separate rest (pend @ [task_data], done))"

definition list_tasks_tool :: "ListTasksRequest \<Rightarrow> table \<Rightarrow> (exn + tool_body) \<times> table" where
  "list_tasks_tool request db =
     (if list_user_id request = []
      then (Inl (HTTPException 400 User_ID_is_required), db)
      else reraise_500 Error_retrieving_tasks db
        (let found = get_user_tasks (list_user_id request) db;
             (pend, done) = separate (List.enumerate 1 found) ([], []);
             task_list = pend @ done
         in (Inr (List_body
                \<lparr>list_tasks = task_list,
                 list_summary = \<lparr>total = length found, pending = length pend,
                                 completed_total = length done\<rparr>,
                 list_pending_tasks = pend, list_completed_tasks = done\<rparr>), db)))"

text \<open>
  \<^verbatim>\<open>update_task_tool\<close>. The owner check and the check that a field is given come
  before the \<^verbatim>\<open>try\<close> (status 400); the range check is inside it, so its 404 leaves
  the tool as a 500.
\<close>

definition update_task_tool ::
  "timestamp \<Rightarrow> UpdateTaskRequest \<Rightarrow> table \<Rightarrow> (exn + tool_body) \<times> table" where
  "update_task_tool now request db =
     (if upd_user_id request = []
      then (Inl (HTTPException 400 User_ID_is_required), db)
      else if upd_title request = None \<and> upd_description request = None
      then (Inl (HTTPException 400 At_least_one_field_must_be_provided), db)
      else reraise_500 Error_updating_task db
        (let found = get_user_tasks (upd_user_id request) db in
         if upd_task_position request < 1 \<or> upd_task_position request > int (length found)
         then (Inl (HTTPException 404 (Task_at_position_not_found (upd_task_position request))), db)
         else
           let db_task = found ! nat (upd_task_position request - 1);
               db_task = (case upd_title request of
                            None \<Rightarrow> db_task | Some v \<Rightarrow> db_task\<lparr>title := v\<rparr>);
               db_task = (case upd_description request of
                            None \<Rightarrow> db_task | Some v \<Rightarrow> db_task\<lparr>description := v\<rparr>);
               db_task = db_task\<lparr>updated_at := now\<rparr>
           in (Inr (Task_body (task_response db_task)), session_update db_task db)))"

text \<open>\<^verbatim>\<open>complete_task_tool\<close>.\<close>

definition complete_task_tool ::
  "timestamp \<Rightarrow> CompleteTaskRequest \<Rightarrow> table \<Rightarrow> (exn + tool_body) \<times> table" where
  "complete_task_tool now request db =
     (if cmp_user_id request = []
      then (Inl (HTTPException 400 User_ID_is_required), db)
      else reraise_500 Error_updating_task_completion db
        (let found = get_user_tasks (cmp_user_id request) db in
         if cmp_task_position request < 1 \<or> cmp_task_position request > int (length found)
         then (Inl (HTTPException 404 (Task_at_position_not_found (cmp_task_position request))), db)
         else
           let db_task = found ! nat (cmp_task_position request - 1);
               db_task = db_task\<lparr>completed := cmp_completed request, updated_at := now\<rparr>
           in (Inr (Task_body (task_response db_task)), session_update db_task db)))"

text \<open>\<^verbatim>\<open>delete_task_tool\<close>. The confirmation names the position, not the row.\<close>

definition delete_task_tool :: "DeleteTaskRequest \<Rightarrow> table \<Rightarrow> (exn + tool_body) \<times> table" where
  "delete_task_tool request db =
     (if del_user_id request = []
      then (Inl (HTTPException 400 User_ID_is_required), db)
      else reraise_500 Error_deleting_task db
        (let found = get_user_tasks (del_user_id request) db in
         if del_task_position request < 1 \<or> del_task_position request > int (length found)
         then (Inl (HTTPException 404 (Task_at_position_not_found (del_task_position request))), db)
         else
           let db_task = found ! nat (del_task_position request - 1)
           in (Inr (Deleted_body (del_task_position request)), session_delete db_task db)))"

section \<open>Sequences of deletions and views of a listing\<close>

text \<open>
  A caller that deletes several positions issues one \<^verbatim>\<open>delete_task\<close> request after the
  other; every request scans the table as the previous one left it.
\<close>

fun delete_by_positions :: "string \<Rightarrow> int list \<Rightarrow> table \<Rightarrow> (exn + tool_body) list \<times> table" where
  "delete_by_positions uid [] db = ([], db)"
| "delete_by_positions uid (p # ps) db =
     (let (r, db') = delete_task_tool \<lparr>del_task_position = p, del_user_id = uid\<rparr> db;
          (rs, db'') = delete_by_positions uid ps db'
      in (r # rs, db''))"

text \<open>The elements at the 1-indexed positions 2, 4, 6, ... of a sequence.\<close>

fun even_positions :: "'a list \<Rightarrow> 'a list" where
  "even_positions (x # y # rest) = y # even_positions rest"
| "even_positions _ = []"

text \<open>The rows of every other owner are the same in both tables.\<close>

definition others_kept :: "string \<Rightarrow> table \<Rightarrow> table \<Rightarrow> bool" where
  "others_kept uid db db' =
     (\<forall>other. other \<noteq> uid \<longrightarrow> get_user_tasks other db' = get_user_tasks other db)"

text \<open>The listing an owner gets, and the position it shows for each identifier.\<close>

definition listing_of :: "string \<Rightarrow> table \<Rightarrow> listing option" where
  "listing_of uid db =
     (case fst (list_tasks_tool \<lparr>list_user_id = uid\<rparr> db) of
        Inr (List_body L) \<Rightarrow> Some L | _ \<Rightarrow> None)"

definition id_positions :: "listing \<Rightarrow> (string \<times> int) set" where
  "id_positions L = (\<lambda>d. (resp_id (td_task d), position d)) ` set (list_tasks L)"

definition tagged :: "nat \<times> Task \<Rightarrow> task_data" where
  "tagged x = \<lparr>td_task = task_response (snd x), position = int (fst x)\<rparr>"

text \<open>A table with three rows of owner \<open>u\<close> and one row of owner \<open>v\<close> between them.\<close>

definition example_table :: table where
  "example_table =
     [\<lparr>task_id = ''a'', title = ''A'', description = '''', completed = False, user_id = ''u'',
       created_at = 1, updated_at = 1\<rparr>,
      \<lparr>task_id = ''x'', title = ''X'', description = '''', completed = False, user_id = ''v'',
       created_at = 2, updated_at = 2\<rparr>,
      \<lparr>task_id = ''b'', title = ''B'', description = '''', completed = False, user_id = ''u'',
       created_at = 3, updated_at = 3\<rparr>,
      \<lparr>task_id = ''c'', title = ''C'', description = '''', completed = False, user_id = ''u'',
       created_at = 4, updated_at = 4\<rparr>]"

text \<open>
  The table after three additions \<open>A\<close>, \<open>B\<close>, \<open>C\<close> for owner \<open>u\<close> into an empty
  table, and the titles a listing shows with their positions, in display order.
\<close>

definition abc_table :: table where
  "abc_table =
     snd (add_task_tool ''c'' 3 3 \<lparr>add_title = ''C'', add_description = '''', add_user_id = ''u''\<rparr>
       (snd (add_task_tool ''b'' 2 2 \<lparr>add_title = ''B'', add_description = '''', add_user_id = ''u''\<rparr>
         (snd (add_task_tool ''a'' 1 1 \<lparr>add_title = ''A'', add_description = '''', add_user_id = ''u''\<rparr> [])))))"

definition title_positions :: "listing option \<Rightarrow> (string \<times> int) list" where
  "title_positions r =
     (case r of None \<Rightarrow> [] | Some L \<Rightarrow> map (\<lambda>d. (resp_title (td_task d), position d)) (list_tasks L))"

section \<open>The HTTP boundary between the chat endpoint and the task tools\<close>

text \<open>
  Tool arguments are JSON objects: dictionaries from keys to JSON values. Numbers with a
  fraction do not occur in the tool schemas and are left out.
\<close>

datatype jval =
    JNull
  | JBool bool
  | JInt int
  | JStr string
  | JArr "jval list"
  | JObj "(string \<times> jval) list"

type_synonym args = "string \<rightharpoonup> jval"

text \<open>Python's truth value of what \<^verbatim>\<open>dict.get\<close> returns (\<open>None\<close> for a missing key).\<close>

fun truthy :: "jval option \<Rightarrow> bool" where
  "truthy None = False"
| "truthy (Some JNull) = False"
| "truthy (Some (JBool b)) = b"
| "truthy (Some (JInt i)) = (i \<noteq> 0)"
| "truthy (Some (JStr s)) = (s \<noteq> [])"
| "truthy (Some (JArr xs)) = (xs \<noteq> [])"
| "truthy (Some (JObj kvs)) = (kvs \<noteq> [])"

text \<open>
  What a POST to a tool URL gives back: status 200 with the tool's body, another status
  with the exception the server answered with, or no response at all (the request raised).
\<close>

datatype http_response =
    Status_200 tool_body
  | Status_other exn
  | Raised

text \<open>
  \<^verbatim>\<open>call_mcp_tool\<close> and \<^verbatim>\<open>get_task_position_from_id\<close> of \<^verbatim>\<open>backend/api/chat.py\<close>
  return a dictionary: the tool's body, or \<^verbatim>\<open>{"error": ...}\<close> with one of five texts.
\<close>

datatype error_text =
    Unknown_tool string
  | Could_not_find_task_with_ID jval
  | Missing_user_id_for_task_lookup
  | Tool_call_failed exn
  | Failed_to_call_tool string

datatype tool_result =
    Result tool_body
  | Error error_text

text \<open>
  The server behind the tool URLs is a parameter \<open>post\<close>: it takes the tool name that ends
  the URL, the JSON body and the state of the world behind it.
\<close>

type_synonym 'w post = "string \<Rightarrow> args \<Rightarrow> 'w \<Rightarrow> http_response \<times> 'w"

definition get_task_position_from_id ::
  "'w post \<Rightarrow> jval \<Rightarrow> jval \<Rightarrow> 'w \<Rightarrow> int option \<times> 'w" where
  "get_task_position_from_id post tid uid w =
     (case post ''list_tasks'' [''user_id'' \<mapsto> uid] w of
        (Status_200 (List_body result), w') \<Rightarrow>
          (case find (\<lambda>task. JStr (resp_id (td_task task)) = tid) (list_tasks result) of
             Some task \<Rightarrow> (Some (position task), w')
           | None \<Rightarrow> (None, w'))
      | (_, w') \<Rightarrow> (None, w'))"

definition tool_endpoints :: "string list" where
  "tool_endpoints = [''add_task'', ''list_tasks'', ''update_task'', ''complete_task'', ''delete_task'']"

definition post_tool :: "'w post \<Rightarrow> string \<Rightarrow> args \<Rightarrow> 'w \<Rightarrow> tool_result \<times> 'w" where
  "post_tool post tool_name transformed_args w =
     (case post tool_name transformed_args w of
        (Status_200 result, w') \<Rightarrow> (Result result, w')
      | (Status_other e, w') \<Rightarrow> (Error (Tool_call_failed e), w')
      | (Raised, w') \<Rightarrow> (Error (Failed_to_call_tool tool_name), w'))"

definition call_mcp_tool :: "'w post \<Rightarrow> string \<Rightarrow> args \<Rightarrow> 'w \<Rightarrow> tool_result \<times> 'w" where
  "call_mcp_tool post tool_name tool_args w =
     (if tool_name \<notin> set tool_endpoints then (Error (Unknown_tool tool_name), w)
      else if tool_name \<in> set [''update_task'', ''complete_task'', ''delete_task'']
              \<and> tool_args ''task_id'' \<noteq> None \<and> tool_args ''task_position'' = None
      then (case tool_args ''task_id'' of
              None \<Rightarrow> post_tool post tool_name tool_args w
            | Some tid \<Rightarrow>
                (if truthy (tool_args ''user_id'')
                 then (case tool_args ''user_id'' of
                         None \<Rightarrow> (Error Missing_user_id_for_task_lookup, w)
                       | Some uid \<Rightarrow>
                          (case get_task_position_from_id post tid uid w of
                             (Some pos, w') \<Rightarrow>
                               post_tool post tool_name
                                 ((tool_args(''task_position'' \<mapsto> JInt pos))(''task_id'' := None)) w'
                           | (None, w') \<Rightarrow> (Error (Could_not_find_task_with_ID tid), w')))
                 else (Error Missing_user_id_for_task_lookup, w)))
      else post_tool post tool_name tool_args w)"

section \<open>The chat endpoint from the model's first response on\<close>

text \<open>
  A tool call of the model: its identifier, the function name and the arguments. The
  arguments arrive as text; \<open>tc_arguments\<close> is what \<^verbatim>\<open>json.loads\<close> makes of it, \<open>None\<close>
  when the text is not a JSON object (then \<^verbatim>\<open>json.loads\<close> or the assignment of
  \<^verbatim>\<open>user_id\<close> raises).
\<close>

record ToolCall =
  tc_id :: string
  tc_name :: string
  tc_arguments :: "args option"

text \<open>A message of the model; a missing \<^verbatim>\<open>tool_calls\<close> is the empty list.\<close>

record model_message =
  msg_content :: "string option"
  msg_tool_calls :: "ToolCall list"

text \<open>The messages sent to the model.\<close>

datatype api_message =
    Plain string string
  | Assistant_with_tool_calls "string option" "ToolCall list"
  | Tool_message tool_result string

text \<open>The rows written by \<^verbatim>\<open>save_tool_invocation_to_db\<close> and \<^verbatim>\<open>save_message_to_db\<close>.\<close>

record ToolInvocation =
  inv_conversation_id :: string
  inv_tool_name :: string
  inv_parameters :: args
  inv_result :: tool_result

record Message =
  m_conversation_id :: string
  m_role :: string
  m_content :: string

record 'w chat_state =
  mcp :: 'w
  tool_invocations :: "ToolInvocation list"
  saved_messages :: "Message list"

record ChatResponse =
  cr_conversation_id :: string
  cr_message :: string
  cr_tool_calls :: "ToolCall list option"

text \<open>
  The loop over \<^verbatim>\<open>response_message.tool_calls\<close>. Each round decodes the arguments,
  overwrites \<^verbatim>\<open>user_id\<close> with the authenticated user's identifier, calls the tool, stores
  the result in the cache under the call's identifier and saves the invocation. The
  accumulator holds the cache and the list \<^verbatim>\<open>tool_calls\<close> of the response; the list in
  \<^verbatim>\<open>assistant_with_tool_calls\<close> gets the same entries. An exception ends the loop and
  the endpoint; what was saved before stays saved.
\<close>

fun tool_call_loop ::
  "'w post \<Rightarrow> string \<Rightarrow> string \<Rightarrow> ToolCall list
   \<Rightarrow> (string \<rightharpoonup> tool_result) \<times> ToolCall list \<Rightarrow> 'w chat_state
   \<Rightarrow> (unit + (string \<rightharpoonup> tool_result) \<times> ToolCall list) \<times> 'w chat_state" where
  "tool_call_loop post current_user_id conversation_id [] acc st = (Inr acc, st)"
| "tool_call_loop post current_user_id conversation_id (tool_call # rest) (cache, calls) st =
     (case tc_arguments tool_call of
        None \<Rightarrow> (Inl (), st)
      | Some decoded \<Rightarrow>
          (let function_name = tc_name tool_call;
               function_args = decoded(''user_id'' \<mapsto> JStr current_user_id);
               (tool_result, w') = call_mcp_tool post function_name function_args (mcp st);
               st' = st\<lparr>mcp := w',
                        tool_invocations := tool_invocations st @
                          [\<lparr>inv_conversation_id = conversation_id, inv_tool_name = function_name,
                            inv_parameters = function_args, inv_result = tool_result\<rparr>]\<rparr>
           in tool_call_loop post current_user_id conversation_id rest
                (cache(tc_id tool_call \<mapsto> tool_result), calls @ [tool_call]) st'))"

text \<open>
  The messages of the second model call: the prepared messages, the assistant message with
  the tool calls, and one tool message per tool call with the cached result.
\<close>

definition tool_messages :: "(string \<rightharpoonup> tool_result) \<Rightarrow> ToolCall list \<Rightarrow> api_message list" where
  "tool_messages cache calls =
     concat (map (\<lambda>tool_call. case cache (tc_id tool_call) of
                    None \<Rightarrow> [] | Some tool_result \<Rightarrow> [Tool_message tool_result (tc_id tool_call)]) calls)"

definition api_messages ::
  "api_message list \<Rightarrow> model_message \<Rightarrow> (string \<rightharpoonup> tool_result) \<times> ToolCall list \<Rightarrow> api_message list" where
  "api_messages messages response_message acc =
     messages @ [Assistant_with_tool_calls (msg_content response_message) (snd acc)]
       @ tool_messages (fst acc) (msg_tool_calls response_message)"

text \<open>Decimal digits of a number, for the f-string that names the count.\<close>

fun str_nat :: "nat \<Rightarrow> string" where
  "str_nat n = (if n < 10 then [char_of (48 + n)] else str_nat (n div 10) @ [char_of (48 + n mod 10)])"

declare str_nat.simps [simp del]

definition py_or :: "string option \<Rightarrow> string \<Rightarrow> string" where
  "py_or s d = (case s of None \<Rightarrow> d | Some v \<Rightarrow> if v = [] then d else v)"

text \<open>
  The reply made from the second model call (\<open>final_message\<close>), with
  \<open>operations_count\<close> the number of tool calls of the first response.
\<close>

definition final_response_content :: "model_message \<Rightarrow> nat \<Rightarrow> string" where
  "final_response_content final_message operations_count =
     (let chat_response_content =
            py_or (msg_content final_message) ''Operation completed successfully.''
      in if chat_response_content = [] \<and> msg_tool_calls final_message \<noteq> []
         then (if length (msg_tool_calls final_message) > 0
               then ''I've completed '' @ str_nat operations_count @ '' task''
                      @ (if operations_count > 1 then ''s'' else '''') @ '' for you!''
               else ''Operation completed successfully.'')
         else chat_response_content)"

text \<open>
  \<open>chat_endpoint\<close> from step 8 on. The inputs are what the steps before it made: the
  authenticated user, the conversation, the messages prepared for the first model call and
  the model's first \<open>response_message\<close>. The second model call is the parameter
  \<open>second_call\<close>; \<open>None\<close> is a call that raised. Every exception leaves the endpoint as
  status 500.
\<close>

datatype chat_error = Error_processing_chat_request

definition chat_endpoint ::
  "'w post \<Rightarrow> (api_message list \<Rightarrow> model_message option) \<Rightarrow> string \<Rightarrow> string
   \<Rightarrow> api_message list \<Rightarrow> model_message \<Rightarrow> 'w chat_state
   \<Rightarrow> (chat_error + ChatResponse) \<times> 'w chat_state" where
  "chat_endpoint post second_call current_user_id conversation_id messages response_message st =
     (let finish = (\<lambda>chat_response_content calls st'.
            (Inr \<lparr>cr_conversation_id = conversation_id, cr_message = chat_response_content,
                  cr_tool_calls = (if calls = [] then None else Some calls)\<rparr>,
             st'\<lparr>saved_messages := saved_messages st' @
                   [\<lparr>m_conversation_id = conversation_id, m_role = ''assistant'',
                     m_content = chat_response_content\<rparr>]\<rparr>))
      in if msg_tool_calls response_message \<noteq> []
         then (case tool_call_loop post current_user_id conversation_id
                      (msg_tool_calls response_message) (Map.empty, []) st of
                 (Inl _, st') \<Rightarrow> (Inl Error_processing_chat_request, st')
               | (Inr acc, st') \<Rightarrow>
                   (case second_call (api_messages messages response_message acc) of
                      None \<Rightarrow> (Inl Error_processing_chat_request, st')
                    | Some final_message \<Rightarrow>
                        finish (final_response_content final_message
                                  (length (msg_tool_calls response_message))) (snd acc) st'))
         else finish (py_or (msg_content response_message) ''I processed your request.'') [] st)"

section \<open>The task tools behind their URLs\<close>

text \<open>
  The server of \<^verbatim>\<open>mcp_server/server.py\<close> as \<^verbatim>\<open>call_mcp_tool\<close> reaches it. The web
  framework reads the JSON body into the request class of the endpoint and answers with
  status 422 when the body does not fit. The validation library (version 2, which the
  repository's settings module requires) converts a value to the declared type of the
  field where it can:
  \<^item> an \<^verbatim>\<open>int\<close> field takes an integer, a boolean (as 0 or 1), or a string that, without
    the whitespace around it, is an optional sign followed by decimal digits;
  \<^item> a \<^verbatim>\<open>bool\<close> field takes a boolean, the integers 0 and 1, or one of the words
    \<^verbatim>\<open>0 off f false n no\<close> and \<^verbatim>\<open>1 on t true y yes\<close>, in any letter case;
  \<^item> a \<^verbatim>\<open>str\<close> field takes a string only;
  \<^item> a field with a default may be missing, an \<^verbatim>\<open>Optional\<close> one may also be \<open>null\<close>, and
    keys the class does not declare are ignored.
  An exception of the tool becomes the response with its status. The identifier for a new
  row and the clock reading are inputs.
\<close>

definition white_space :: "char \<Rightarrow> bool" where
  "white_space c = (of_char c \<in> {9, 10, 11, 12, 13, 32, 133, 160 :: nat})"

definition trim :: "string \<Rightarrow> string" where
  "trim s = rev (dropWhile white_space (rev (dropWhile white_space s)))"

definition is_digit :: "char \<Rightarrow> bool" where
  "is_digit c = (48 \<le> (of_char c :: nat) \<and> (of_char c :: nat) \<le> 57)"

definition decimal :: "string \<Rightarrow> nat option" where
  "decimal ds =
     (if ds \<noteq> [] \<and> list_all is_digit ds
      then Some (foldl (\<lambda>n c. 10 * n + (of_char c - 48)) 0 ds) else None)"

definition str_as_int :: "string \<Rightarrow> int option" where
  "str_as_int s =
     (case trim s of
        [] \<Rightarrow> None
      | c # rest \<Rightarrow>
          if c = CHR ''-'' then map_option (\<lambda>n. - int n) (decimal rest)
          else if c = CHR ''+'' then map_option int (decimal rest)
          else map_option int (decimal (c # rest)))"

definition ascii_lower :: "char \<Rightarrow> char" where
  "ascii_lower c =
     (if 65 \<le> (of_char c :: nat) \<and> (of_char c :: nat) \<le> 90 then char_of (of_char c + 32 :: nat) else c)"

definition str_as_bool :: "string \<Rightarrow> bool option" where
  "str_as_bool s =
     (let w = map ascii_lower s in
      if w \<in> set [''0'', ''off'', ''f'', ''false'', ''n'', ''no''] then Some False
      else if w \<in> set [''1'', ''on'', ''t'', ''true'', ''y'', ''yes''] then Some True
      else None)"

text \<open>A required field: a missing key does not fit.\<close>

fun as_int :: "jval option \<Rightarrow> int option" where
  "as_int (Some (JInt i)) = Some i"
| "as_int (Some (JBool b)) = Some (if b then 1 else 0)"
| "as_int (Some (JStr s)) = str_as_int s"
| "as_int _ = None"

fun as_str :: "jval option \<Rightarrow> string option" where
  "as_str (Some (JStr s)) = Some s"
| "as_str _ = None"

fun as_bool :: "jval option \<Rightarrow> bool option" where
  "as_bool (Some (JBool b)) = Some b"
| "as_bool (Some (JInt i)) = (if i = 0 then Some False else if i = 1 then Some True else None)"
| "as_bool (Some (JStr s)) = str_as_bool s"
| "as_bool _ = None"

text \<open>A field with a default, and an optional string.\<close>

definition with_default :: "'a \<Rightarrow> (jval option \<Rightarrow> 'a option) \<Rightarrow> jval option \<Rightarrow> 'a option" where
  "with_default d conv v = (case v of None \<Rightarrow> Some d | Some x \<Rightarrow> conv (Some x))"

fun optional_str :: "jval option \<Rightarrow> string option option" where
  "optional_str None = Some None"
| "optional_str (Some JNull) = Some None"
| "optional_str (Some (JStr s)) = Some (Some s)"
| "optional_str _ = None"

definition parse_AddTaskRequest :: "args \<Rightarrow> AddTaskRequest option" where
  "parse_AddTaskRequest a =
     (case (as_str (a ''title''), with_default [] as_str (a ''description''), as_str (a ''user_id'')) of
        (Some t, Some d, Some u) \<Rightarrow>
          Some \<lparr>add_title = t, add_description = d, add_user_id = u\<rparr>
      | _ \<Rightarrow> None)"

definition parse_ListTasksRequest :: "args \<Rightarrow> ListTasksRequest option" where
  "parse_ListTasksRequest a =
     (case as_str (a ''user_id'') of Some u \<Rightarrow> Some \<lparr>list_user_id = u\<rparr> | None \<Rightarrow> None)"

definition parse_UpdateTaskRequest :: "args \<Rightarrow> UpdateTaskRequest option" where
  "parse_UpdateTaskRequest a =
     (case (as_int (a ''task_position''), as_str (a ''user_id''), optional_str (a ''title''),
            optional_str (a ''description'')) of
        (Some p, Some u, Some t, Some d) \<Rightarrow>
          Some \<lparr>upd_task_position = p, upd_user_id = u, upd_title = t, upd_description = d\<rparr>
      | _ \<Rightarrow> None)"

definition parse_CompleteTaskRequest :: "args \<Rightarrow> CompleteTaskRequest option" where
  "parse_CompleteTaskRequest a =
     (case (as_int (a ''task_position''), as_str (a ''user_id''),
            with_default True as_bool (a ''completed'')) of
        (Some p, Some u, Some c) \<Rightarrow>
          Some \<lparr>cmp_task_position = p, cmp_user_id = u, cmp_completed = c\<rparr>
      | _ \<Rightarrow> None)"

definition parse_DeleteTaskRequest :: "args \<Rightarrow> DeleteTaskRequest option" where
  "parse_DeleteTaskRequest a =
     (case (as_int (a ''task_position''), as_str (a ''user_id'')) of
        (Some p, Some u) \<Rightarrow> Some \<lparr>del_task_position = p, del_user_id = u\<rparr>
      | _ \<Rightarrow> None)"

definition respond :: "(exn + tool_body) \<times> table \<Rightarrow> http_response \<times> table" where
  "respond r = (case fst r of Inr body \<Rightarrow> (Status_200 body, snd r)
                            | Inl e \<Rightarrow> (Status_other e, snd r))"

definition mcp_server :: "string \<Rightarrow> timestamp \<Rightarrow> table post" where
  "mcp_server new_id now tool_name body db =
     (if tool_name = ''add_task'' then
        (case parse_AddTaskRequest body of
           None \<Rightarrow> (Status_other RequestValidationError, db)
         | Some request \<Rightarrow> respond (add_task_tool new_id now now request db))
      else if tool_name = ''list_tasks'' then
        (case parse_ListTasksRequest body of
           None \<Rightarrow> (Status_other RequestValidationError, db)
         | Some request \<Rightarrow> respond (list_tasks_tool request db))
      else if tool_name = ''update_task'' then
        (case parse_UpdateTaskRequest body of
           None \<Rightarrow> (Status_other RequestValidationError, db)
         | Some request \<Rightarrow> respond (update_task_tool now request db))
      else if tool_name = ''complete_task'' then
        (case parse_CompleteTaskRequest body of
           None \<Rightarrow> (Status_other RequestValidationError, db)
         | Some request \<Rightarrow> respond (complete_task_tool now request db))
      else if tool_name = ''delete_task'' then
        (case parse_DeleteTaskRequest body of
           None \<Rightarrow> (Status_other RequestValidationError, db)
         | Some request \<Rightarrow> respond (delete_task_tool request db))
      else (Status_other (HTTPException 404 Not_Found), db))"

section \<open>The agent of \<^verbatim>\<open>backend/ai_agent/agent.py\<close>\<close>

text \<open>
  \<^verbatim>\<open>TodoAgent.process_message\<close> runs the same kind of loop with its own
  \<^verbatim>\<open>call_mcp_tool\<close>, which sends the parameters to the tool URL and returns what comes
  back; it is the parameter \<open>call\<close>. The loop adds \<^verbatim>\<open>user_id\<close> to the decoded arguments
  only when the key is not there. Nothing catches an exception here.
\<close>

definition agent_function_args :: "string \<Rightarrow> args \<Rightarrow> args" where
  "agent_function_args uid function_args =
     (if function_args ''user_id'' = None then function_args(''user_id'' \<mapsto> JStr uid)
      else function_args)"

fun agent_tool_loop ::
  "(string \<Rightarrow> args \<Rightarrow> 'w \<Rightarrow> 'r \<times> 'w) \<Rightarrow> string \<Rightarrow> ToolCall list \<Rightarrow> 'w
   \<Rightarrow> (unit + (string \<times> string \<times> 'r) list) \<times> 'w" where
  "agent_tool_loop call uid [] w = (Inr [], w)"
| "agent_tool_loop call uid (tool_call # rest) w =
     (case tc_arguments tool_call of
        None \<Rightarrow> (Inl (), w)
      | Some decoded \<Rightarrow>
          (let function_name = tc_name tool_call;
               function_args = agent_function_args uid decoded;
               (tool_response, w') = call function_name function_args w
           in case agent_tool_loop call uid rest w' of
                (Inl e, w'') \<Rightarrow> (Inl e, w'')
              | (Inr msgs, w'') \<Rightarrow> (Inr ((tc_id tool_call, function_name, tool_response) # msgs), w'')))"

section \<open>What a turn shows\<close>

text \<open>
  The \<^verbatim>\<open>task_position\<close> arguments of the \<^verbatim>\<open>delete_task\<close> invocations a turn saved, in
  the order it issued them.
\<close>

definition issued_delete_positions :: "ToolInvocation list \<Rightarrow> jval option list" where
  "issued_delete_positions invs =
     map (\<lambda>i. inv_parameters i ''task_position'') (filter (\<lambda>i. inv_tool_name i = ''delete_task'') invs)"

fun strictly_descending :: "jval option list \<Rightarrow> bool" where
  "strictly_descending (Some (JInt p) # Some (JInt q) # rest) =
     (q < p \<and> strictly_descending (Some (JInt q) # rest))"
| "strictly_descending [Some (JInt p)] = True"
| "strictly_descending [] = True"
| "strictly_descending _ = False"

text \<open>The task identifiers a tool result, and a message sent to the model, contains.\<close>

fun result_ids :: "tool_result \<Rightarrow> string list" where
  "result_ids (Result (Task_body r)) = [resp_id r]"
| "result_ids (Result (List_body L)) =
     map (\<lambda>d. resp_id (td_task d)) (list_tasks L @ list_pending_tasks L @ list_completed_tasks L)"
| "result_ids (Result (Deleted_body p)) = []"
| "result_ids (Error e) = []"

fun message_ids :: "api_message \<Rightarrow> string list" where
  "message_ids (Tool_message r i) = result_ids r"
| "message_ids _ = []"

text \<open>The tool messages in the messages of the second model call of a turn with tools.\<close>

definition second_call_messages ::
  "'w post \<Rightarrow> string \<Rightarrow> string \<Rightarrow> api_message list \<Rightarrow> model_message \<Rightarrow> 'w chat_state
   \<Rightarrow> api_message list" where
  "second_call_messages post current_user_id conversation_id messages response_message st =
     (case tool_call_loop post current_user_id conversation_id
             (msg_tool_calls response_message) (Map.empty, []) st of
        (Inl _, st') \<Rightarrow> []
      | (Inr acc, st') \<Rightarrow> api_messages messages response_message acc)"

text \<open>
  The tool calls of a response up to the first whose arguments do not decode, as name and
  decoded arguments; the name and parameters of a saved invocation; and the arguments with
  the user's identifier written over \<^verbatim>\<open>user_id\<close>.
\<close>

fun decoded_prefix :: "ToolCall list \<Rightarrow> (string \<times> args) list" where
  "decoded_prefix [] = []"
| "decoded_prefix (tool_call # rest) =
     (case tc_arguments tool_call of
        None \<Rightarrow> []
      | Some decoded \<Rightarrow> (tc_name tool_call, decoded) # decoded_prefix rest)"

definition name_and_parameters :: "ToolInvocation \<Rightarrow> string \<times> args" where
  "name_and_parameters i = (inv_tool_name i, inv_parameters i)"

definition with_user_id :: "string \<Rightarrow> string \<times> args \<Rightarrow> string \<times> args" where
  "with_user_id uid c = (fst c, (snd c)(''user_id'' \<mapsto> JStr uid))"

text \<open>
  A turn for owner \<open>u\<close> on the example table: the model asks to delete position 1 and then
  position 2, and answers the second call with a text.
\<close>

definition example_state :: "table chat_state" where
  "example_state = \<lparr>mcp = example_table, tool_invocations = [], saved_messages = []\<rparr>"

definition delete_call :: "string \<Rightarrow> int \<Rightarrow> ToolCall" where
  "delete_call i p =
     \<lparr>tc_id = i, tc_name = ''delete_task'', tc_arguments = Some [''task_position'' \<mapsto> JInt p]\<rparr>"

definition ascending_response :: model_message where
  "ascending_response =
     \<lparr>msg_content = None, msg_tool_calls = [delete_call ''call_1'' 1, delete_call ''call_2'' 2]\<rparr>"

definition text_reply :: "api_message list \<Rightarrow> model_message option" where
  "text_reply msgs = Some \<lparr>msg_content = Some ''Done.'', msg_tool_calls = []\<rparr>"

text \<open>
  A second model call that answers with another tool call and no text, and a tool call
  whose arguments name another user.
\<close>

definition no_text_reply :: "api_message list \<Rightarrow> model_message option" where
  "no_text_reply msgs = Some \<lparr>msg_content = None, msg_tool_calls = [delete_call ''call_3'' 1]\<rparr>"

definition bob_call :: ToolCall where
  "bob_call = \<lparr>tc_id = ''call_1'', tc_name = ''delete_task'',
               tc_arguments = Some [''task_position'' \<mapsto> JInt 1, ''user_id'' \<mapsto> JStr ''bob'']\<rparr>"

text \<open>
  The result and the call identifier a tool message carries, and a first response that
  asks to add a task.
\<close>

fun tool_result_of :: "api_message \<Rightarrow> tool_result option" where
  "tool_result_of (Tool_message r i) = Some r"
| "tool_result_of _ = None"

fun tool_call_id_of :: "api_message \<Rightarrow> string option" where
  "tool_call_id_of (Tool_message r i) = Some i"
| "tool_call_id_of _ = None"

definition add_response :: model_message where
  "add_response =
     \<lparr>msg_content = None,
      msg_tool_calls = [\<lparr>tc_id = ''call_1'', tc_name = ''add_task'',
                         tc_arguments = Some [''title'' \<mapsto> JStr ''Buy milk'']\<rparr>]\<rparr>"

text \<open>
  The row a request to add \<open>Buy milk\<close> stores, and a first response with two tool calls:
  an addition under the call identifier \<open>i\<close>, then a deletion under \<open>j\<close>.
\<close>

definition milk_task :: Task where
  "milk_task = \<lparr>task_id = ''t1'', title = ''Buy milk'', description = [], completed = False,
                 user_id = ''u'', created_at = 9, updated_at = 9\<rparr>"

definition add_then_delete :: "string \<Rightarrow> string \<Rightarrow> model_message" where
  "add_then_delete i j =
     \<lparr>msg_content = None,
      msg_tool_calls = [\<lparr>tc_id = i, tc_name = ''add_task'',
                         tc_arguments = Some [''title'' \<mapsto> JStr ''Buy milk'']\<rparr>,
                        delete_call j 1]\<rparr>"

section \<open>Facts about the table and single deletions\<close>

lemma reraise_500_Inl: "reraise_500 w db (Inl e, x) = (Inl (HTTPException 500 (w e)), db)"
  by (simp add: reraise_500_def)

lemma reraise_500_Inr: "reraise_500 w db (Inr v, x) = (Inr v, x)"
  by (simp add: reraise_500_def)

lemma unique_ids_nth:
  "unique_ids db \<Longrightarrow> i < length db \<Longrightarrow> j < length db \<Longrightarrow> task_id (db ! i) = task_id (db ! j) \<Longrightarrow> i = j"
  unfolding unique_ids_def
  by (metis length_map nth_eq_iff_index_eq nth_map)

lemma unique_ids_filter: "unique_ids db \<Longrightarrow> unique_ids (filter P db)"
  unfolding unique_ids_def by (rule distinct_map_filter)

lemma unique_ids_user: "unique_ids db \<Longrightarrow> unique_ids (get_user_tasks uid db)"
  unfolding get_user_tasks_def by (rule unique_ids_filter)

lemma session_update_nth:
  "unique_ids db \<Longrightarrow> i < length db \<Longrightarrow> task_id row = task_id (db ! i) \<Longrightarrow> session_update row db = db[i := row]"
  unfolding session_update_def
  by (rule nth_equalityI) (auto simp: nth_list_update dest: unique_ids_nth)

lemma filter_other_ids:
  "unique_ids xs \<Longrightarrow> n < length xs \<Longrightarrow>
   filter (\<lambda>t. task_id t \<noteq> task_id (xs ! n)) xs = take n xs @ drop (Suc n) xs"
proof (induction xs arbitrary: n)
  case Nil
  then show ?case by simp
next
  case (Cons x xs)
  show ?case
  proof (cases n)
    case 0
    from Cons.prems have "\<forall>t\<in>set xs. task_id t \<noteq> task_id x"
      unfolding unique_ids_def by (metis distinct.simps(2) image_eqI list.simps(9) set_map)
    with 0 show ?thesis by simp
  next
    case (Suc m)
    with Cons.prems have "task_id x \<noteq> task_id (xs ! m)" "unique_ids xs" "m < length xs"
      by (auto simp: unique_ids_def)
    with Cons.IH[of m] Suc show ?thesis by simp
  qed
qed

lemma session_delete_owner:
  assumes "unique_ids db" and "n < length (get_user_tasks uid db)"
  shows "get_user_tasks uid (session_delete (get_user_tasks uid db ! n) db)
         = take n (get_user_tasks uid db) @ drop (Suc n) (get_user_tasks uid db)"
proof -
  have "get_user_tasks uid (session_delete (get_user_tasks uid db ! n) db)
        = filter (\<lambda>t. task_id t \<noteq> task_id (get_user_tasks uid db ! n)) (get_user_tasks uid db)"
    by (simp add: get_user_tasks_def session_delete_def conj_commute)
  also have "\<dots> = take n (get_user_tasks uid db) @ drop (Suc n) (get_user_tasks uid db)"
    using assms by (intro filter_other_ids unique_ids_user)
  finally show ?thesis .
qed

lemma session_delete_others:
  assumes "unique_ids db" and "n < length (get_user_tasks uid db)" and "other \<noteq> uid"
  shows "get_user_tasks other (session_delete (get_user_tasks uid db ! n) db) = get_user_tasks other db"
proof -
  let ?row = "get_user_tasks uid db ! n"
  have row: "?row \<in> set db" "user_id ?row = uid"
    using assms(2) nth_mem[OF assms(2)] by (auto simp: get_user_tasks_def)
  have "task_id t \<noteq> task_id ?row" if "t \<in> set db" "user_id t = other" for t
  proof
    assume "task_id t = task_id ?row"
    with assms(1) that(1) row(1) have "t = ?row"
      by (auto simp: unique_ids_def dest: inj_on_eq_iff[OF iffD1[OF distinct_map, THEN conjunct2]])
    with that(2) row(2) assms(3) show False by simp
  qed
  then show ?thesis
    by (auto simp: get_user_tasks_def session_delete_def intro!: filter_cong)
qed

lemma delete_in_range:
  assumes "uid \<noteq> []" and "1 \<le> k" and "k \<le> int (length (get_user_tasks uid db))"
  shows "delete_task_tool \<lparr>del_task_position = k, del_user_id = uid\<rparr> db
         = (Inr (Deleted_body k), session_delete (get_user_tasks uid db ! nat (k - 1)) db)"
  using assms by (simp add: delete_task_tool_def Let_def reraise_500_Inr)

lemma delete_out_of_range:
  assumes "uid \<noteq> []" and "k < 1 \<or> int (length (get_user_tasks uid db)) < k"
  shows "delete_task_tool \<lparr>del_task_position = k, del_user_id = uid\<rparr> db
         = (Inl (HTTPException 500 (Error_deleting_task (HTTPException 404 (Task_at_position_not_found k)))), db)"
  using assms by (auto simp add: delete_task_tool_def Let_def reraise_500_Inl)

lemma unique_ids_session_delete: "unique_ids db \<Longrightarrow> unique_ids (session_delete row db)"
  unfolding session_delete_def by (rule unique_ids_filter)

lemma descending_deletes_all:
  "unique_ids db \<Longrightarrow> uid \<noteq> [] \<Longrightarrow> length (get_user_tasks uid db) = n \<Longrightarrow>
   \<exists>db'. delete_by_positions uid (rev (map int [1..<Suc n])) db
            = (map (\<lambda>p. Inr (Deleted_body p)) (rev (map int [1..<Suc n])), db')
         \<and> get_user_tasks uid db' = [] \<and> unique_ids db' \<and> others_kept uid db db'"
proof (induction n arbitrary: db)
  case 0
  then show ?case by (simp add: others_kept_def)
next
  case (Suc n)
  let ?found = "get_user_tasks uid db"
  let ?db1 = "session_delete (?found ! n) db"
  have step: "delete_task_tool \<lparr>del_task_position = int (Suc n), del_user_id = uid\<rparr> db
              = (Inr (Deleted_body (int (Suc n))), ?db1)"
    using delete_in_range[of uid "int (Suc n)" db] Suc.prems by simp
  have found1: "get_user_tasks uid ?db1 = take n ?found"
    using session_delete_owner[of db n uid] Suc.prems by simp
  have "length (get_user_tasks uid ?db1) = n"
    using found1 Suc.prems by simp
  from Suc.IH[OF unique_ids_session_delete[OF Suc.prems(1)] Suc.prems(2) this]
  obtain db' where rest: "delete_by_positions uid (rev (map int [1..<Suc n])) ?db1
            = (map (\<lambda>p. Inr (Deleted_body p)) (rev (map int [1..<Suc n])), db')"
     and fin: "get_user_tasks uid db' = []" "unique_ids db'" "others_kept uid ?db1 db'"
    by blast
  have "others_kept uid db ?db1"
    unfolding others_kept_def using session_delete_others[of db n uid] Suc.prems by simp
  with fin(3) have "others_kept uid db db'"
    by (simp add: others_kept_def)
  moreover have "delete_by_positions uid (rev (map int [1..<Suc (Suc n)])) db
            = (map (\<lambda>p. Inr (Deleted_body p)) (rev (map int [1..<Suc (Suc n)])), db')"
    using step rest by simp
  ultimately show ?case using fin by blast
qed

lemma even_positions_step:
  "q < length xs \<Longrightarrow>
   take (Suc q) (take q xs @ drop (Suc q) xs) @ even_positions (drop (Suc q) (take q xs @ drop (Suc q) xs))
   = take q xs @ even_positions (drop q xs)"
proof -
  assume q: "q < length xs"
  have d: "drop q xs = xs ! q # drop (Suc q) xs"
    using q by (simp add: Cons_nth_drop_Suc)
  show ?thesis
  proof (cases "drop (Suc q) xs")
    case Nil
    then show ?thesis using q d by (simp add: min_def)
  next
    case (Cons y ys)
    then have "drop (Suc (Suc q)) xs = ys"
      by (metis drop_Suc list.sel(3) tl_drop)
    then show ?thesis using q d Cons by (simp add: min_def)
  qed
qed

lemma ascending_deletes_general:
  "unique_ids db \<Longrightarrow> uid \<noteq> [] \<Longrightarrow>
   length (get_user_tasks uid db) + Suc q \<le> Suc N \<or> length (get_user_tasks uid db) < Suc q \<Longrightarrow>
   \<exists>rs db'. delete_by_positions uid (map int [Suc q..<Suc N]) db = (rs, db')
         \<and> get_user_tasks uid db'
             = take q (get_user_tasks uid db) @ even_positions (drop q (get_user_tasks uid db))
         \<and> unique_ids db' \<and> others_kept uid db db'"
proof (induction "N - q" arbitrary: q db)
  case 0
  then have "[Suc q..<Suc N] = []" by simp
  moreover have "length (get_user_tasks uid db) \<le> q"
    using 0 by auto
  ultimately show ?case using 0 by (simp add: others_kept_def)
next
  case (Suc d)
  let ?found = "get_user_tasks uid db"
  have qN: "q < N" using Suc.hyps(2) by simp
  then have upt: "[Suc q..<Suc N] = Suc q # [Suc (Suc q)..<Suc N]"
    by (simp add: upt_conv_Cons)
  have d: "d = N - Suc q" using Suc.hyps(2) by simp
  show ?case
  proof (cases "q < length ?found")
    case True
    let ?db1 = "session_delete (?found ! q) db"
    have step: "delete_task_tool \<lparr>del_task_position = int (Suc q), del_user_id = uid\<rparr> db
              = (Inr (Deleted_body (int (Suc q))), ?db1)"
      using delete_in_range[of uid "int (Suc q)" db] Suc.prems True by simp
    have found1: "get_user_tasks uid ?db1 = take q ?found @ drop (Suc q) ?found"
      using session_delete_owner[of db q uid] Suc.prems True by simp
    have inv: "length (get_user_tasks uid ?db1) + Suc (Suc q) \<le> Suc N
               \<or> length (get_user_tasks uid ?db1) < Suc (Suc q)"
      using found1 True Suc.prems(3) by auto
    from Suc.hyps(1)[OF d unique_ids_session_delete[OF Suc.prems(1)] Suc.prems(2) inv]
    obtain rs db' where rest: "delete_by_positions uid (map int [Suc (Suc q)..<Suc N]) ?db1 = (rs, db')"
      and fin: "get_user_tasks uid db'
             = take (Suc q) (get_user_tasks uid ?db1) @ even_positions (drop (Suc q) (get_user_tasks uid ?db1))"
         "unique_ids db'" "others_kept uid ?db1 db'"
      by blast
    have "others_kept uid db ?db1"
      unfolding others_kept_def using session_delete_others[of db q uid] Suc.prems True by simp
    with fin(3) have "others_kept uid db db'"
      by (simp add: others_kept_def)
    moreover have "get_user_tasks uid db' = take q ?found @ even_positions (drop q ?found)"
      using fin(1) found1 even_positions_step[OF True] by simp
    moreover have "delete_by_positions uid (map int [Suc q..<Suc N]) db
                   = (Inr (Deleted_body (int (Suc q))) # rs, db')"
      using step rest upt by simp
    ultimately show ?thesis using fin(2) by blast
  next
    case False
    have step: "delete_task_tool \<lparr>del_task_position = int (Suc q), del_user_id = uid\<rparr> db
         = (Inl (HTTPException 500 (Error_deleting_task
              (HTTPException 404 (Task_at_position_not_found (int (Suc q)))))), db)"
      using delete_out_of_range[of uid "int (Suc q)" db] Suc.prems False by simp
    have inv: "length ?found + Suc (Suc q) \<le> Suc N \<or> length ?found < Suc (Suc q)"
      using False by simp
    from Suc.hyps(1)[OF d Suc.prems(1) Suc.prems(2) inv]
    obtain rs db' where rest: "delete_by_positions uid (map int [Suc (Suc q)..<Suc N]) db = (rs, db')"
      and fin: "get_user_tasks uid db' = take (Suc q) ?found @ even_positions (drop (Suc q) ?found)"
         "unique_ids db'" "others_kept uid db db'"
      by blast
    have "get_user_tasks uid db' = take q ?found @ even_positions (drop q ?found)"
      using fin(1) False by simp
    moreover have "\<exists>r. delete_by_positions uid (map int [Suc q..<Suc N]) db = (r # rs, db')"
      using step rest upt by simp
    ultimately show ?thesis using fin(2,3) by blast
  qed
qed

section \<open>Facts about listings and updates in place\<close>

lemma separate_eq:
  "separate xs (p, d) = (p @ map tagged (filter (\<lambda>x. \<not> completed (snd x)) xs),
                         d @ map tagged (filter (\<lambda>x. completed (snd x)) xs))"
  by (induction xs arbitrary: p d) (auto simp: Let_def tagged_def)

lemma list_tasks_tool_eq:
  assumes "uid \<noteq> []"
  shows "list_tasks_tool \<lparr>list_user_id = uid\<rparr> db =
    (let en = List.enumerate 1 (get_user_tasks uid db);
         pend = map tagged (filter (\<lambda>x. \<not> completed (snd x)) en);
         done = map tagged (filter (\<lambda>x. completed (snd x)) en)
     in (Inr (List_body \<lparr>list_tasks = pend @ done,
            list_summary = \<lparr>total = length (get_user_tasks uid db), pending = length pend,
                            completed_total = length done\<rparr>,
            list_pending_tasks = pend, list_completed_tasks = done\<rparr>), db))"
  using assms by (simp add: list_tasks_tool_def Let_def separate_eq reraise_500_Inr)

lemma listing_of_Some:
  assumes "uid \<noteq> []"
  shows "\<exists>L. listing_of uid db = Some L"
  using assms by (simp add: listing_of_def list_tasks_tool_eq Let_def)

lemma set_partition_map: "set (map f (filter (\<lambda>x. \<not> P x) xs) @ map f (filter P xs)) = f ` set xs"
  by auto

lemma list_tasks_of:
  assumes "uid \<noteq> []" and "listing_of uid db = Some L"
  shows "list_tasks L = map tagged (filter (\<lambda>x. \<not> completed (snd x)) (List.enumerate 1 (get_user_tasks uid db)))
            @ map tagged (filter (\<lambda>x. completed (snd x)) (List.enumerate 1 (get_user_tasks uid db)))"
  using assms unfolding listing_of_def
  by (auto simp: list_tasks_tool_eq Let_def)

lemma set_list_tasks:
  assumes "uid \<noteq> []" and "listing_of uid db = Some L"
  shows "set (list_tasks L) = tagged ` set (List.enumerate 1 (get_user_tasks uid db))"
  unfolding list_tasks_of[OF assms] by (rule set_partition_map)

lemma id_positions_eq:
  assumes "uid \<noteq> []" and "listing_of uid db = Some L"
  shows "id_positions L = (\<lambda>x. (task_id (snd x), int (fst x))) ` set (List.enumerate 1 (get_user_tasks uid db))"
  unfolding id_positions_def set_list_tasks[OF assms]
  by (force simp: task_response_def tagged_def image_iff)

lemma enumerate_ids:
  "map (\<lambda>x. (task_id (snd x), int (fst x))) (List.enumerate n xs)
   = zip (map task_id xs) (map int [n..<n + length xs])"
  by (induction xs arbitrary: n) (auto simp: upt_conv_Cons simp del: upt_Suc)

lemma id_positions_zip:
  assumes "uid \<noteq> []" and "listing_of uid db = Some L"
  shows "id_positions L = set (zip (map task_id (get_user_tasks uid db))
                                   (map int [1..<Suc (length (get_user_tasks uid db))]))"
  unfolding id_positions_eq[OF assms] using enumerate_ids[of 1 "get_user_tasks uid db"]
  by (metis Suc_eq_plus1_left set_map)

lemma session_update_user_tasks:
  assumes "\<forall>t\<in>set db. task_id t = task_id row \<longrightarrow> user_id t = user_id row"
  shows "get_user_tasks uid (session_update row db)
         = map (\<lambda>t. if task_id t = task_id row then row else t) (get_user_tasks uid db)"
  using assms unfolding get_user_tasks_def session_update_def
  by (induction db) auto

lemma session_update_ids:
  "map task_id (map (\<lambda>t. if task_id t = task_id row then row else t) xs) = map task_id xs"
  by (induction xs) auto

lemma unique_ids_owner:
  assumes "unique_ids db" and "t \<in> set db" and "s \<in> set db" and "task_id t = task_id s"
  shows "t = s"
  using assms unfolding unique_ids_def
  by (meson distinct_map inj_on_eq_iff)

lemma distinct_partition_map:
  "distinct (map f xs) \<Longrightarrow> distinct (map f (filter (\<lambda>x. \<not> P x) xs) @ map f (filter P xs))"
  by (induction xs) auto

lemma positions_distinct:
  assumes "uid \<noteq> []" and "listing_of uid db = Some L"
  shows "distinct (map position (list_tasks L))"
proof -
  let ?en = "List.enumerate 1 (get_user_tasks uid db)"
  have "map (position \<circ> tagged) ?en = map (int \<circ> fst) ?en"
    by (simp add: comp_def tagged_def)
  also have "\<dots> = map int (map fst ?en)"
    by (simp only: map_map)
  also have "\<dots> = map int [1..<1 + length (get_user_tasks uid db)]"
    by (simp only: map_fst_enumerate)
  finally have eq: "map (position \<circ> tagged) ?en = map int [1..<1 + length (get_user_tasks uid db)]" .
  have "distinct (map int [1..<1 + length (get_user_tasks uid db)])"
    by (simp only: distinct_map distinct_upt inj_on_def of_nat_eq_iff) simp
  then have "distinct (map (position \<circ> tagged) ?en)"
    by (simp only: eq)
  from distinct_partition_map[OF this, of "\<lambda>x. completed (snd x)"]
  show ?thesis unfolding list_tasks_of[OF assms] by simp
qed

lemma positions_are_ranks:
  assumes "uid \<noteq> []" and "listing_of uid db = Some L" and "d \<in> set (list_tasks L)"
  shows "1 \<le> position d \<and> position d \<le> int (length (get_user_tasks uid db))
         \<and> td_task d = task_response (get_user_tasks uid db ! nat (position d - 1))"
proof -
  from assms(3) obtain x where x: "x \<in> set (List.enumerate 1 (get_user_tasks uid db))" "d = tagged x"
    unfolding set_list_tasks[OF assms(1,2)] by blast
  from x(1) have "1 \<le> fst x" "fst x < length (get_user_tasks uid db) + 1"
      "get_user_tasks uid db ! (fst x - 1) = snd x"
    by (simp_all add: in_set_enumerate_eq)
  moreover have "nat (int (fst x) - 1) = fst x - 1" by simp
  ultimately show ?thesis using x(2) by (simp add: tagged_def)
qed

lemma listing_parts:
  assumes "uid \<noteq> []" and "listing_of uid db = Some L"
  shows "list_tasks L = list_pending_tasks L @ list_completed_tasks L"
    and "length (list_tasks L) = length (get_user_tasks uid db)"
    and "\<forall>d\<in>set (list_pending_tasks L). \<not> resp_completed (td_task d)"
    and "\<forall>d\<in>set (list_completed_tasks L). resp_completed (td_task d)"
    and "list_summary L = \<lparr>total = length (get_user_tasks uid db), pending = length (list_pending_tasks L),
                            completed_total = length (list_completed_tasks L)\<rparr>"
proof -
  let ?en = "List.enumerate 1 (get_user_tasks uid db)"
  have L: "L = \<lparr>list_tasks = map tagged (filter (\<lambda>x. \<not> completed (snd x)) ?en) @ map tagged (filter (\<lambda>x. completed (snd x)) ?en),
            list_summary = \<lparr>total = length (get_user_tasks uid db), pending = length (map tagged (filter (\<lambda>x. \<not> completed (snd x)) ?en)),
                            completed_total = length (map tagged (filter (\<lambda>x. completed (snd x)) ?en))\<rparr>,
            list_pending_tasks = map tagged (filter (\<lambda>x. \<not> completed (snd x)) ?en),
            list_completed_tasks = map tagged (filter (\<lambda>x. completed (snd x)) ?en)\<rparr>"
    using assms unfolding listing_of_def by (simp add: list_tasks_tool_eq Let_def)
  show "list_tasks L = list_pending_tasks L @ list_completed_tasks L"
    by (subst (1 2 3) L) simp
  have "length (filter (\<lambda>x. \<not> completed (snd x)) ?en) + length (filter (\<lambda>x. completed (snd x)) ?en) = length ?en"
    using sum_length_filter_compl[of "\<lambda>x. completed (snd x)" ?en] by simp
  then show "length (list_tasks L) = length (get_user_tasks uid db)"
    by (subst L) simp
  show "\<forall>d\<in>set (list_pending_tasks L). \<not> resp_completed (td_task d)"
    by (subst L) (auto simp: tagged_def task_response_def)
  show "\<forall>d\<in>set (list_completed_tasks L). resp_completed (td_task d)"
    by (subst L) (auto simp: tagged_def task_response_def)
  show "list_summary L = \<lparr>total = length (get_user_tasks uid db), pending = length (list_pending_tasks L),
                            completed_total = length (list_completed_tasks L)\<rparr>"
    by (subst (1 2 3) L) simp
qed

lemma complete_table_in:
  assumes "uid \<noteq> []" and "1 \<le> k" and "k \<le> int (length (get_user_tasks uid db))"
  shows "complete_task_tool now \<lparr>cmp_task_position = k, cmp_user_id = uid, cmp_completed = c\<rparr> db
   = (Inr (Task_body (task_response ((get_user_tasks uid db ! nat (k - 1))\<lparr>completed := c, updated_at := now\<rparr>))),
      session_update ((get_user_tasks uid db ! nat (k - 1))\<lparr>completed := c, updated_at := now\<rparr>) db)"
  using assms by (simp add: complete_task_tool_def Let_def reraise_500_Inr)

lemma complete_table_out:
  assumes "uid = [] \<or> k < 1 \<or> int (length (get_user_tasks uid db)) < k"
  shows "snd (complete_task_tool now \<lparr>cmp_task_position = k, cmp_user_id = uid, cmp_completed = c\<rparr> db) = db"
  using assms by (auto simp: complete_task_tool_def Let_def reraise_500_Inl)

lemma complete_keeps_ids:
  assumes "unique_ids db"
  shows "map task_id (get_user_tasks uid (snd (complete_task_tool now
            \<lparr>cmp_task_position = k, cmp_user_id = uid, cmp_completed = c\<rparr> db)))
         = map task_id (get_user_tasks uid db)"
proof (cases "uid = [] \<or> k < 1 \<or> int (length (get_user_tasks uid db)) < k")
  case True
  from complete_table_out[OF this] show ?thesis by simp
next
  case False
  then have rng: "uid \<noteq> []" "1 \<le> k" "k \<le> int (length (get_user_tasks uid db))" by auto
  let ?old = "get_user_tasks uid db ! nat (k - 1)"
  let ?row = "?old\<lparr>completed := c, updated_at := now\<rparr>"
  have idx: "nat (k - 1) < length (get_user_tasks uid db)" using rng by auto
  then have old: "?old \<in> set (get_user_tasks uid db)" by (rule nth_mem)
  then have old_db: "?old \<in> set db" "user_id ?old = uid" by (auto simp: get_user_tasks_def)
  have "\<forall>t\<in>set db. task_id t = task_id ?row \<longrightarrow> user_id t = user_id ?row"
    using unique_ids_owner[OF assms _ old_db(1)] by auto
  from session_update_user_tasks[OF this, of uid]
  have "map task_id (get_user_tasks uid (session_update ?row db)) = map task_id (get_user_tasks uid db)"
    by (simp only: session_update_ids)
  then show ?thesis
    by (simp only: complete_table_in[OF rng] snd_conv)
qed

lemma complete_keeps_positions:
  assumes "uid \<noteq> []" and "unique_ids db" and "listing_of uid db = Some L"
  shows "\<exists>L'. listing_of uid (snd (complete_task_tool now
            \<lparr>cmp_task_position = k, cmp_user_id = uid, cmp_completed = c\<rparr> db)) = Some L'
           \<and> id_positions L' = id_positions L"
proof -
  let ?db' = "snd (complete_task_tool now \<lparr>cmp_task_position = k, cmp_user_id = uid, cmp_completed = c\<rparr> db)"
  obtain L' where L': "listing_of uid ?db' = Some L'"
    using listing_of_Some[OF assms(1)] by blast
  have ids: "map task_id (get_user_tasks uid ?db') = map task_id (get_user_tasks uid db)"
    by (rule complete_keeps_ids[OF assms(2)])
  then have "length (get_user_tasks uid ?db') = length (get_user_tasks uid db)"
    by (metis length_map)
  with ids have "id_positions L' = id_positions L"
    unfolding id_positions_zip[OF assms(1) L'] id_positions_zip[OF assms(1,3)] by simp
  with L' show ?thesis by blast
qed

lemma strip_A: "strip ''A'' \<noteq> []" "strip ''B'' \<noteq> []" "strip ''C'' \<noteq> []"
  by (simp_all add: strip_def isspace_def)

lemma abc_table_eq:
  "abc_table =
     [\<lparr>task_id = ''a'', title = ''A'', description = '''', completed = False, user_id = ''u'', created_at = 1, updated_at = 1\<rparr>,
      \<lparr>task_id = ''b'', title = ''B'', description = '''', completed = False, user_id = ''u'', created_at = 2, updated_at = 2\<rparr>,
      \<lparr>task_id = ''c'', title = ''C'', description = '''', completed = False, user_id = ''u'', created_at = 3, updated_at = 3\<rparr>]"
  by (simp add: abc_table_def add_task_tool_def strip_A session_insert_def reraise_500_Inr Let_def)

lemma abc_listing:
  "title_positions (listing_of ''u'' abc_table) = [(''A'', 1), (''B'', 2), (''C'', 3)]"
  by (simp add: abc_table_eq title_positions_def listing_of_def list_tasks_tool_eq Let_def
      get_user_tasks_def enumerate_simps tagged_def task_response_def)

lemma abc_after_complete:
  "title_positions (listing_of ''u'' (snd (complete_task_tool 9
       \<lparr>cmp_task_position = 2, cmp_user_id = ''u'', cmp_completed = True\<rparr> abc_table)))
   = [(''A'', 1), (''C'', 3), (''B'', 2)]"
proof -
  have g: "get_user_tasks ''u'' abc_table = abc_table"
    by (simp add: abc_table_eq get_user_tasks_def)
  have "snd (complete_task_tool 9 \<lparr>cmp_task_position = 2, cmp_user_id = ''u'', cmp_completed = True\<rparr> abc_table)
     = [\<lparr>task_id = ''a'', title = ''A'', description = '''', completed = False, user_id = ''u'', created_at = 1, updated_at = 1\<rparr>,
      \<lparr>task_id = ''b'', title = ''B'', description = '''', completed = True, user_id = ''u'', created_at = 2, updated_at = 9\<rparr>,
      \<lparr>task_id = ''c'', title = ''C'', description = '''', completed = False, user_id = ''u'', created_at = 3, updated_at = 3\<rparr>]"
    by (simp add: complete_task_tool_def Let_def g reraise_500_Inr) (simp add: abc_table_eq session_update_def)
  then show ?thesis
    by (simp add: title_positions_def listing_of_def list_tasks_tool_eq Let_def
      get_user_tasks_def enumerate_simps tagged_def task_response_def)
qed

section \<open>Facts about the single tools\<close>

lemma update_in_range:
  assumes "uid \<noteq> []" and "ti \<noteq> None \<or> de \<noteq> None"
    and "1 \<le> k" and "k \<le> int (length (get_user_tasks uid db))"
  shows "update_task_tool now \<lparr>upd_task_position = k, upd_user_id = uid, upd_title = ti, upd_description = de\<rparr> db
    = (let old = get_user_tasks uid db ! nat (k - 1);
           new = old\<lparr>title := (case ti of None \<Rightarrow> title old | Some v \<Rightarrow> v),
                     description := (case de of None \<Rightarrow> description old | Some v \<Rightarrow> v),
                     updated_at := now\<rparr>
       in (Inr (Task_body (task_response new)), session_update new db))"
  using assms
  by (cases ti; cases de) (simp_all add: update_task_tool_def Let_def reraise_500_Inr)

lemma update_out_of_range:
  assumes "uid \<noteq> []" and "ti \<noteq> None \<or> de \<noteq> None"
    and "k < 1 \<or> int (length (get_user_tasks uid db)) < k"
  shows "update_task_tool now \<lparr>upd_task_position = k, upd_user_id = uid, upd_title = ti, upd_description = de\<rparr> db
    = (Inl (HTTPException 500 (Error_updating_task (HTTPException 404 (Task_at_position_not_found k)))), db)"
  using assms
  by (cases ti; cases de) (auto simp add: update_task_tool_def Let_def reraise_500_Inl)

lemma update_no_fields:
  "update_task_tool now \<lparr>upd_task_position = k, upd_user_id = uid, upd_title = None, upd_description = None\<rparr> db
    = (Inl (HTTPException 400 (if uid = [] then User_ID_is_required else At_least_one_field_must_be_provided)), db)"
  by (simp add: update_task_tool_def)

lemma complete_out_of_range:
  assumes "uid \<noteq> []" and "k < 1 \<or> int (length (get_user_tasks uid db)) < k"
  shows "complete_task_tool now \<lparr>cmp_task_position = k, cmp_user_id = uid, cmp_completed = c\<rparr> db
    = (Inl (HTTPException 500 (Error_updating_task_completion (HTTPException 404 (Task_at_position_not_found k)))), db)"
  using assms by (auto simp add: complete_task_tool_def Let_def reraise_500_Inl)

lemma session_update_at:
  assumes "unique_ids db" and "old \<in> set db" and "task_id new = task_id old"
  shows "\<exists>i<length db. db ! i = old \<and> session_update new db = db[i := new]"
proof -
  from assms(2) obtain i where i: "i < length db" "db ! i = old"
    by (auto simp: in_set_conv_nth)
  from session_update_nth[OF assms(1) i(1), of new] assms(3) i(2)
  have "session_update new db = db[i := new]" by simp
  with i show ?thesis by blast
qed

lemma add_ok:
  assumes "strip ti \<noteq> []" and "uid \<noteq> []" and "i \<notin> set (map task_id db)"
  shows "add_task_tool i n1 n2 \<lparr>add_title = ti, add_description = de, add_user_id = uid\<rparr> db
     = (let t = \<lparr>task_id = i, title = ti, description = de, completed = False, user_id = uid,
                 created_at = n1, updated_at = n2\<rparr>
        in (Inr (Task_body (task_response t)), db @ [t]))"
proof -
  from assms(1) have "ti \<noteq> []" by (auto simp: strip_def)
  with assms show ?thesis
    by (simp add: add_task_tool_def Let_def session_insert_def reraise_500_Inr)
qed

lemma add_invalid:
  assumes "ti = [] \<or> strip ti = [] \<or> uid = []"
  shows "\<exists>d. add_task_tool i n1 n2 \<lparr>add_title = ti, add_description = de, add_user_id = uid\<rparr> db
     = (Inl (HTTPException 400 d), db)"
  using assms by (auto simp: add_task_tool_def)

lemma add_clash:
  assumes "strip ti \<noteq> []" and "uid \<noteq> []" and "i \<in> set (map task_id db)"
  shows "add_task_tool i n1 n2 \<lparr>add_title = ti, add_description = de, add_user_id = uid\<rparr> db
     = (Inl (HTTPException 500 (Error_creating_task IntegrityError)), db)"
proof -
  from assms(1) have "ti \<noteq> []" by (auto simp: strip_def)
  with assms show ?thesis
    by (simp add: add_task_tool_def Let_def session_insert_def reraise_500_Inl)
qed

lemma update_failure_keeps:
  "update_task_tool now r db = (Inl e, db') \<Longrightarrow> db' = db"
  by (auto simp: update_task_tool_def Let_def reraise_500_def split: if_splits sum.splits)

lemma add_failure_keeps:
  "add_task_tool i n1 n2 r db = (Inl e, db') \<Longrightarrow> db' = db"
  by (auto simp: add_task_tool_def Let_def reraise_500_def session_insert_def split: if_splits sum.splits)

lemma add_success:
  assumes "add_task_tool i n1 n2 \<lparr>add_title = ti, add_description = de, add_user_id = uid\<rparr> db = (Inr body, db')"
  shows "strip ti \<noteq> [] \<and> uid \<noteq> [] \<and> i \<notin> set (map task_id db)"
proof -
  have "\<not> (ti = [] \<or> strip ti = [] \<or> uid = [])"
    using add_invalid[of ti uid i n1 n2 de db] assms by auto
  moreover have "i \<notin> set (map task_id db)"
  proof
    assume "i \<in> set (map task_id db)"
    from add_clash[OF _ _ this, of ti uid n1 n2 de] calculation assms show False by simp
  qed
  ultimately show ?thesis by simp
qed

lemma complete_failure_keeps:
  "complete_task_tool now r db = (Inl e, db') \<Longrightarrow> db' = db"
  by (auto simp: complete_task_tool_def Let_def reraise_500_def split: if_splits sum.splits)

lemma delete_failure_keeps:
  "delete_task_tool r db = (Inl e, db') \<Longrightarrow> db' = db"
  by (auto simp: delete_task_tool_def Let_def reraise_500_def split: if_splits sum.splits)

lemma example_scan: "get_user_tasks ''u'' example_table = [example_table ! 0, example_table ! 2, example_table ! 3]"
  by (simp add: get_user_tasks_def example_table_def)

text \<open>
  Unique identifiers are an invariant of the table: the empty table has them and every tool
  keeps them.
\<close>

lemma unique_ids_empty: "unique_ids []"
  by (simp add: unique_ids_def)

lemma session_update_keeps_ids: "map task_id (session_update row db) = map task_id db"
  unfolding session_update_def by (rule session_update_ids)

lemma add_keeps_unique_ids:
  "unique_ids db \<Longrightarrow> unique_ids (snd (add_task_tool i n1 n2 r db))"
  by (auto simp: add_task_tool_def Let_def reraise_500_def session_insert_def unique_ids_def
      split: if_splits sum.splits)

lemma update_keeps_unique_ids:
  "unique_ids db \<Longrightarrow> unique_ids (snd (update_task_tool now r db))"
  by (auto simp: update_task_tool_def Let_def reraise_500_def unique_ids_def session_update_keeps_ids
      split: if_splits sum.splits option.splits)

lemma complete_keeps_unique_ids:
  "unique_ids db \<Longrightarrow> unique_ids (snd (complete_task_tool now r db))"
  by (auto simp: complete_task_tool_def Let_def reraise_500_def unique_ids_def session_update_keeps_ids
      split: if_splits sum.splits)

lemma delete_keeps_unique_ids:
  "unique_ids db \<Longrightarrow> unique_ids (snd (delete_task_tool r db))"
  by (auto simp: delete_task_tool_def Let_def reraise_500_def unique_ids_session_delete
      split: if_splits sum.splits)

lemma list_keeps_table: "snd (list_tasks_tool r db) = db"
  by (auto simp: list_tasks_tool_def Let_def reraise_500_def split: if_splits sum.splits prod.splits)

section \<open>Facts about the tool-call loop\<close>

lemma py_or_nonempty: "d \<noteq> [] \<Longrightarrow> py_or s d \<noteq> []"
  by (simp add: py_or_def split: option.splits)

lemma final_response_content_eq:
  "final_response_content final_message n = py_or (msg_content final_message) ''Operation completed successfully.''"
  using py_or_nonempty[of "''Operation completed successfully.''" "msg_content final_message"]
  by (simp add: final_response_content_def Let_def)

lemma tool_call_loop_invocations:
  "map name_and_parameters (tool_invocations (snd (tool_call_loop post uid cid tcs acc st)))
   = map name_and_parameters (tool_invocations st) @ map (with_user_id uid) (decoded_prefix tcs)"
proof (induction tcs arbitrary: acc st)
  case Nil
  then show ?case by simp
next
  case (Cons tc tcs)
  obtain cache calls where acc: "acc = (cache, calls)" by (cases acc)
  show ?case
  proof (cases "tc_arguments tc")
    case None
    then show ?thesis by (simp add: acc)
  next
    case (Some decoded)
    obtain r w' where call: "call_mcp_tool post (tc_name tc) (decoded(''user_id'' \<mapsto> JStr uid)) (mcp st) = (r, w')"
      by (cases "call_mcp_tool post (tc_name tc) (decoded(''user_id'' \<mapsto> JStr uid)) (mcp st)")
    show ?thesis
      by (simp add: acc Some call Let_def Cons.IH) (simp add: name_and_parameters_def with_user_id_def)
  qed
qed

lemma chat_endpoint_invocations:
  "map name_and_parameters (tool_invocations (snd (chat_endpoint post second_call uid cid msgs rm st)))
   = map name_and_parameters (tool_invocations st) @ map (with_user_id uid) (decoded_prefix (msg_tool_calls rm))"
proof (cases "msg_tool_calls rm = []")
  case True
  then show ?thesis by (simp add: chat_endpoint_def)
next
  case False
  obtain r st' where loop: "tool_call_loop post uid cid (msg_tool_calls rm) (Map.empty, []) st = (r, st')"
    by (cases "tool_call_loop post uid cid (msg_tool_calls rm) (Map.empty, []) st")
  have "tool_invocations (snd (chat_endpoint post second_call uid cid msgs rm st)) = tool_invocations st'"
    using False loop by (simp add: chat_endpoint_def split: sum.splits option.splits)
  moreover have "map name_and_parameters (tool_invocations st')
     = map name_and_parameters (tool_invocations st) @ map (with_user_id uid) (decoded_prefix (msg_tool_calls rm))"
    using tool_call_loop_invocations[of post uid cid "msg_tool_calls rm" "(Map.empty, [])" st] loop by simp
  ultimately show ?thesis by simp
qed

lemma issued_delete_positions_alt:
  "issued_delete_positions invs
   = map (\<lambda>c. snd c ''task_position'') (filter (\<lambda>c. fst c = ''delete_task'') (map name_and_parameters invs))"
  by (induction invs) (simp_all add: issued_delete_positions_def name_and_parameters_def)

lemma delete_positions_with_user_id:
  "map (\<lambda>c. snd c ''task_position'') (filter (\<lambda>c. fst c = ''delete_task'') (map (with_user_id uid) cs))
   = map (\<lambda>c. snd c ''task_position'') (filter (\<lambda>c. fst c = ''delete_task'') cs)"
  by (induction cs) (simp_all add: with_user_id_def)

lemma call_delete_task:
  assumes "a ''task_position'' = Some (JInt p)" and "a ''user_id'' = Some (JStr u)"
  shows "call_mcp_tool (mcp_server i n) ''delete_task'' a db
     = (case fst (delete_task_tool \<lparr>del_task_position = p, del_user_id = u\<rparr> db) of
          Inr b \<Rightarrow> Result b | Inl e \<Rightarrow> Error (Tool_call_failed e),
        snd (delete_task_tool \<lparr>del_task_position = p, del_user_id = u\<rparr> db))"
  using assms
  by (simp add: call_mcp_tool_def tool_endpoints_def post_tool_def mcp_server_def
      parse_DeleteTaskRequest_def respond_def split: sum.splits)

lemma example_delete_1:
  "delete_task_tool \<lparr>del_task_position = 1, del_user_id = ''u''\<rparr> example_table
   = (Inr (Deleted_body 1), [example_table ! Suc 0, example_table ! 2, example_table ! 3])"
  by (simp add: delete_task_tool_def Let_def reraise_500_Inr example_scan)
     (simp add: example_table_def session_delete_def)

lemma example_delete_2:
  "delete_task_tool \<lparr>del_task_position = 2, del_user_id = ''u''\<rparr> [example_table ! Suc 0, example_table ! 2, example_table ! 3]
   = (Inr (Deleted_body 2), [example_table ! Suc 0, example_table ! 2])"
  by (simp add: delete_task_tool_def Let_def reraise_500_Inr get_user_tasks_def session_delete_def example_table_def)

lemma str_nat_2: "str_nat 2 = ''2''"
  by code_simp

lemma agent_bob: "agent_function_args ''alice'' [''task_position'' \<mapsto> JInt 1, ''user_id'' \<mapsto> JStr ''bob'']
     = [''task_position'' \<mapsto> JInt 1, ''user_id'' \<mapsto> JStr ''bob'']"
  by (simp add: agent_function_args_def)

lemma user_ids_with_user_id:
  "map (\<lambda>c. snd c ''user_id'') (map (with_user_id uid) cs) = replicate (length cs) (Some (JStr uid))"
  by (induction cs) (simp_all add: with_user_id_def)

lemma chat_endpoint_user_ids:
  "map (\<lambda>i. inv_parameters i ''user_id'') (tool_invocations (snd (chat_endpoint post second_call uid cid msgs rm st)))
   = map (\<lambda>i. inv_parameters i ''user_id'') (tool_invocations st)
     @ replicate (length (decoded_prefix (msg_tool_calls rm))) (Some (JStr uid))"
proof -
  have "map (\<lambda>i. inv_parameters i ''user_id'') invs = map (\<lambda>c. snd c ''user_id'') (map name_and_parameters invs)" for invs
    by (simp add: name_and_parameters_def)
  then show ?thesis
    by (simp only: chat_endpoint_invocations map_append user_ids_with_user_id)
qed

text \<open>
  The chat endpoint reaches the server only with bodies that carry the authenticated
  user's identifier: two servers that answer such bodies alike give the same turn.
\<close>

lemma get_task_position_from_id_owner_only:
  assumes "\<And>name a w. a ''user_id'' = Some u \<Longrightarrow> post name a w = post' name a w"
  shows "get_task_position_from_id post tid u w = get_task_position_from_id post' tid u w"
proof -
  have "post ''list_tasks'' [''user_id'' \<mapsto> u] w = post' ''list_tasks'' [''user_id'' \<mapsto> u] w"
    by (rule assms) simp
  then show ?thesis by (simp add: get_task_position_from_id_def)
qed

lemma call_mcp_tool_owner_only:
  assumes same: "\<And>name a w. a ''user_id'' = Some u \<Longrightarrow> post name a w = post' name a w"
    and owner: "tool_args ''user_id'' = Some u"
  shows "call_mcp_tool post tool_name tool_args w = call_mcp_tool post' tool_name tool_args w"
proof -
  have p: "post_tool post tool_name a w' = post_tool post' tool_name a w'" if "a ''user_id'' = Some u" for a w'
    using same[of a tool_name w'] that by (simp add: post_tool_def)
  have p1: "post_tool post tool_name tool_args w = post_tool post' tool_name tool_args w"
    using p[of tool_args w] owner by simp
  have p2: "post_tool post tool_name ((tool_args(''task_position'' \<mapsto> JInt pos))(''task_id'' := None)) w'
          = post_tool post' tool_name ((tool_args(''task_position'' \<mapsto> JInt pos))(''task_id'' := None)) w'" for pos w'
    using p[of "(tool_args(''task_position'' \<mapsto> JInt pos))(''task_id'' := None)" w'] owner by simp
  have g: "get_task_position_from_id post tid u w = get_task_position_from_id post' tid u w" for tid
    using get_task_position_from_id_owner_only[of u post post' tid w] same by simp
  show ?thesis
    unfolding call_mcp_tool_def owner
    by (simp add: p1 p2 g split: option.splits prod.splits)
qed

lemma tool_call_loop_owner_only:
  assumes same: "\<And>name a w. a ''user_id'' = Some (JStr uid) \<Longrightarrow> post name a w = post' name a w"
  shows "tool_call_loop post uid cid tcs acc st = tool_call_loop post' uid cid tcs acc st"
proof (induction tcs arbitrary: acc st)
  case Nil
  then show ?case by simp
next
  case (Cons tc tcs)
  obtain cache calls where acc: "acc = (cache, calls)" by (cases acc)
  show ?case
  proof (cases "tc_arguments tc")
    case None
    then show ?thesis by (simp add: acc)
  next
    case (Some decoded)
    have "call_mcp_tool post (tc_name tc) (decoded(''user_id'' \<mapsto> JStr uid)) (mcp st)
        = call_mcp_tool post' (tc_name tc) (decoded(''user_id'' \<mapsto> JStr uid)) (mcp st)"
      using call_mcp_tool_owner_only[of "JStr uid" post post' "decoded(''user_id'' \<mapsto> JStr uid)" "tc_name tc" "mcp st"] same
      by simp
    then show ?thesis
      by (simp add: acc Some Let_def Cons.IH split: prod.splits)
  qed
qed

lemma chat_endpoint_owner_only:
  assumes same: "\<And>name a w. a ''user_id'' = Some (JStr uid) \<Longrightarrow> post name a w = post' name a w"
  shows "chat_endpoint post second_call uid cid msgs rm st = chat_endpoint post' second_call uid cid msgs rm st"
  unfolding chat_endpoint_def second_call_messages_def
  by (simp only: tool_call_loop_owner_only[of uid post post', OF same])

lemma str_as_int_examples:
  "str_as_int ''2'' = Some 2" "str_as_int '' 12 '' = Some 12" "str_as_int ''-3'' = Some (- 3)"
  "str_as_int ''two'' = None" "str_as_int [] = None"
  by (simp_all add: str_as_int_def trim_def white_space_def decimal_def is_digit_def)

lemma converted_positions:
  "parse_DeleteTaskRequest [''task_position'' \<mapsto> JStr ''2'', ''user_id'' \<mapsto> JStr ''u'']
     = Some \<lparr>del_task_position = 2, del_user_id = ''u''\<rparr>"
  "parse_DeleteTaskRequest [''task_position'' \<mapsto> JBool True, ''user_id'' \<mapsto> JStr ''u'']
     = Some \<lparr>del_task_position = 1, del_user_id = ''u''\<rparr>"
  "parse_DeleteTaskRequest [''task_position'' \<mapsto> JNull, ''user_id'' \<mapsto> JStr ''u''] = None"
  by (simp_all add: parse_DeleteTaskRequest_def str_as_int_examples)

lemma str_as_bool_examples:
  "str_as_bool ''False'' = Some False" "str_as_bool ''yes'' = Some True" "str_as_bool ''maybe'' = None"
  by code_simp+

section \<open>Facts about results and the messages of the second call\<close>

lemma tool_call_loop_result:
  "tool_call_loop post uid cid tcs (cache, calls) st = (Inr (cache', calls'), st') \<Longrightarrow>
   calls' = calls @ tcs
   \<and> (\<exists>news. tool_invocations st' = tool_invocations st @ news
         \<and> (\<forall>tc\<in>set tcs. \<exists>inv\<in>set news. cache' (tc_id tc) = Some (inv_result inv))
         \<and> (\<forall>k. k \<notin> tc_id ` set tcs \<longrightarrow> cache' k = cache k))"
proof (induction tcs arbitrary: cache calls st)
  case Nil
  then show ?case by simp
next
  case (Cons tc tcs)
  from Cons.prems obtain decoded where dec: "tc_arguments tc = Some decoded"
    by (cases "tc_arguments tc") simp_all
  obtain r w' where call: "call_mcp_tool post (tc_name tc) (decoded(''user_id'' \<mapsto> JStr uid)) (mcp st) = (r, w')"
    by (cases "call_mcp_tool post (tc_name tc) (decoded(''user_id'' \<mapsto> JStr uid)) (mcp st)")
  let ?inv = "\<lparr>inv_conversation_id = cid, inv_tool_name = tc_name tc,
               inv_parameters = decoded(''user_id'' \<mapsto> JStr uid), inv_result = r\<rparr>"
  let ?st1 = "st\<lparr>mcp := w', tool_invocations := tool_invocations st @ [?inv]\<rparr>"
  from Cons.prems have rest: "tool_call_loop post uid cid tcs (cache(tc_id tc \<mapsto> r), calls @ [tc]) ?st1
      = (Inr (cache', calls'), st')"
    by (simp add: dec call Let_def)
  from Cons.IH[OF rest] obtain news where
    c: "calls' = (calls @ [tc]) @ tcs"
    and n: "tool_invocations st' = tool_invocations ?st1 @ news"
    and h: "\<forall>tc'\<in>set tcs. \<exists>inv\<in>set news. cache' (tc_id tc') = Some (inv_result inv)"
    and k: "\<forall>k. k \<notin> tc_id ` set tcs \<longrightarrow> cache' k = (cache(tc_id tc \<mapsto> r)) k"
    by blast
  have "\<exists>inv\<in>set (?inv # news). cache' (tc_id tc) = Some (inv_result inv)"
  proof (cases "tc_id tc \<in> tc_id ` set tcs")
    case True
    then obtain tc' where "tc' \<in> set tcs" "tc_id tc' = tc_id tc" by auto
    with h show ?thesis by (metis list.set_intros(2))
  next
    case False
    with k have "cache' (tc_id tc) = Some r" by simp
    then show ?thesis by simp
  qed
  moreover have "\<forall>tc'\<in>set tcs. \<exists>inv\<in>set (?inv # news). cache' (tc_id tc') = Some (inv_result inv)"
    using h by (metis list.set_intros(2))
  moreover have "\<forall>k'. k' \<notin> tc_id ` set (tc # tcs) \<longrightarrow> cache' k' = cache k'"
    using k by simp
  moreover have "tool_invocations st' = tool_invocations st @ (?inv # news)"
    using n by simp
  ultimately show ?case using c by (intro conjI exI[of _ "?inv # news"]) simp_all
qed

lemma tool_messages_ids:
  "\<forall>tc\<in>set tcs. cache (tc_id tc) \<noteq> None \<Longrightarrow>
   List.map_filter tool_call_id_of (tool_messages cache tcs) = map tc_id tcs"
  by (induction tcs) (auto simp: tool_messages_def List.map_filter_simps)

lemma tool_messages_results:
  "\<forall>tc\<in>set tcs. \<exists>r\<in>R. cache (tc_id tc) = Some r \<Longrightarrow>
   set (List.map_filter tool_result_of (tool_messages cache tcs)) \<subseteq> R"
  by (induction tcs) (auto simp: tool_messages_def List.map_filter_simps)

lemma call_add_task:
  assumes "a ''title'' = Some (JStr t)" and "a ''description'' = None" and "a ''user_id'' = Some (JStr u)"
  shows "call_mcp_tool (mcp_server i n) ''add_task'' a db
     = (case fst (add_task_tool i n n \<lparr>add_title = t, add_description = [], add_user_id = u\<rparr> db) of
          Inr b \<Rightarrow> Result b | Inl e \<Rightarrow> Error (Tool_call_failed e),
        snd (add_task_tool i n n \<lparr>add_title = t, add_description = [], add_user_id = u\<rparr> db))"
  using assms
  by (simp add: call_mcp_tool_def tool_endpoints_def post_tool_def mcp_server_def
      parse_AddTaskRequest_def with_default_def respond_def split: sum.splits)

lemma strip_buy_milk: "strip ''Buy milk'' \<noteq> []"
  by (simp add: strip_def isspace_def)

lemma example_add:
  "add_task_tool ''t1'' 9 9 \<lparr>add_title = ''Buy milk'', add_description = [], add_user_id = ''u''\<rparr> example_table
   = (Inr (Task_body (task_response \<lparr>task_id = ''t1'', title = ''Buy milk'', description = [],
         completed = False, user_id = ''u'', created_at = 9, updated_at = 9\<rparr>)),
      example_table @ [\<lparr>task_id = ''t1'', title = ''Buy milk'', description = [],
         completed = False, user_id = ''u'', created_at = 9, updated_at = 9\<rparr>])"
proof -
  have "''t1'' \<notin> set (map task_id example_table)" by (simp add: example_table_def)
  from add_ok[OF strip_buy_milk _ this, of "''u''" 9 9 "[]"] show ?thesis by (simp add: Let_def)
qed

lemma add_turn_loop:
  "tool_call_loop (mcp_server ''t1'' 9) ''u'' ''conv'' (msg_tool_calls add_response) (Map.empty, []) example_state
   = (Inr ([''call_1'' \<mapsto> Result (Task_body (task_response \<lparr>task_id = ''t1'', title = ''Buy milk'',
                description = [], completed = False, user_id = ''u'', created_at = 9, updated_at = 9\<rparr>))],
           msg_tool_calls add_response),
      \<lparr>mcp = example_table @ [\<lparr>task_id = ''t1'', title = ''Buy milk'', description = [],
               completed = False, user_id = ''u'', created_at = 9, updated_at = 9\<rparr>],
       tool_invocations =
         [\<lparr>inv_conversation_id = ''conv'', inv_tool_name = ''add_task'',
           inv_parameters = [''title'' \<mapsto> JStr ''Buy milk'', ''user_id'' \<mapsto> JStr ''u''],
           inv_result = Result (Task_body (task_response \<lparr>task_id = ''t1'', title = ''Buy milk'',
                description = [], completed = False, user_id = ''u'', created_at = 9, updated_at = 9\<rparr>))\<rparr>],
       saved_messages = []\<rparr>)"
  by (simp add: add_response_def example_state_def Let_def call_add_task example_add)

lemma add_result_ids:
  assumes "add_task_tool i n1 n2 \<lparr>add_title = ti, add_description = de, add_user_id = uid\<rparr> db = (Inr b, db')"
  shows "result_ids (Result b) = [i] \<and> i \<in> set (map task_id db')"
proof -
  from add_success[OF assms] have ok: "strip ti \<noteq> []" "uid \<noteq> []" "i \<notin> set (map task_id db)"
    by simp_all
  from assms add_ok[OF ok, of n1 n2 de] show ?thesis
    by (auto simp: Let_def task_response_def)
qed

lemma delete_result_ids:
  "delete_task_tool r db = (Inr b, db') \<Longrightarrow> result_ids (Result b) = []"
  by (auto simp: delete_task_tool_def Let_def reraise_500_def split: if_splits sum.splits)

lemma complete_result_ids:
  "complete_task_tool now r db = (Inr b, db') \<Longrightarrow>
   \<exists>t\<in>set (get_user_tasks (cmp_user_id r) db). result_ids (Result b) = [task_id t]"
  by (auto simp: complete_task_tool_def Let_def reraise_500_def task_response_def
      split: if_splits sum.splits)

lemma update_result_ids:
  "update_task_tool now r db = (Inr b, db') \<Longrightarrow>
   \<exists>t\<in>set (get_user_tasks (upd_user_id r) db). result_ids (Result b) = [task_id t]"
  by (auto simp: update_task_tool_def Let_def reraise_500_def task_response_def
      split: if_splits sum.splits option.splits)

lemma list_result_ids:
  assumes "list_tasks_tool \<lparr>list_user_id = uid\<rparr> db = (Inr b, db')"
  shows "set (result_ids (Result b)) = task_id ` set (get_user_tasks uid db)"
proof -
  have ne: "uid \<noteq> []" using assms by (auto simp: list_tasks_tool_def)
  obtain L where L: "listing_of uid db = Some L" using listing_of_Some[OF ne] by blast
  have b: "b = List_body L"
    using L assms by (simp add: listing_of_def split: sum.splits tool_body.splits)
  let ?en = "List.enumerate 1 (get_user_tasks uid db)"
  have "set (result_ids (Result b)) = (\<lambda>d. resp_id (td_task d)) ` set (list_tasks L)"
    unfolding b using listing_parts(1)[OF ne L] by auto
  also have "\<dots> = (\<lambda>d. resp_id (td_task d)) ` tagged ` set ?en"
    by (simp only: set_list_tasks[OF ne L])
  also have "\<dots> = task_id ` snd ` set ?en"
    by (simp add: image_image tagged_def task_response_def)
  also have "\<dots> = task_id ` set (get_user_tasks uid db)"
    by (metis list.set_map map_snd_enumerate)
  finally show ?thesis .
qed

lemma second_call_results:
  assumes "tool_call_loop post uid cid (msg_tool_calls rm) (Map.empty, []) st = (Inr acc, st')"
  shows "second_call_messages post uid cid msgs rm st
           = msgs @ [Assistant_with_tool_calls (msg_content rm) (msg_tool_calls rm)]
               @ tool_messages (fst acc) (msg_tool_calls rm)"
    and "List.map_filter tool_call_id_of (tool_messages (fst acc) (msg_tool_calls rm))
           = map tc_id (msg_tool_calls rm)"
    and "set (List.map_filter tool_result_of (tool_messages (fst acc) (msg_tool_calls rm)))
           \<subseteq> inv_result ` set (drop (length (tool_invocations st)) (tool_invocations st'))"
proof -
  obtain cache' calls' where acc: "acc = (cache', calls')" by (cases acc)
  from tool_call_loop_result[OF assms[unfolded acc]] obtain news where
    c: "calls' = msg_tool_calls rm"
    and n: "tool_invocations st' = tool_invocations st @ news"
    and h: "\<forall>tc\<in>set (msg_tool_calls rm). \<exists>inv\<in>set news. cache' (tc_id tc) = Some (inv_result inv)"
    by auto
  show "second_call_messages post uid cid msgs rm st
           = msgs @ [Assistant_with_tool_calls (msg_content rm) (msg_tool_calls rm)]
               @ tool_messages (fst acc) (msg_tool_calls rm)"
    by (simp add: second_call_messages_def assms api_messages_def acc c)
  from h have "\<forall>tc\<in>set (msg_tool_calls rm). cache' (tc_id tc) \<noteq> None" by fastforce
  then show "List.map_filter tool_call_id_of (tool_messages (fst acc) (msg_tool_calls rm))
           = map tc_id (msg_tool_calls rm)"
    unfolding acc fst_conv by (rule tool_messages_ids)
  from h have "\<forall>tc\<in>set (msg_tool_calls rm). \<exists>r\<in>inv_result ` set news. cache' (tc_id tc) = Some r"
    by fastforce
  then have "set (List.map_filter tool_result_of (tool_messages cache' (msg_tool_calls rm)))
       \<subseteq> inv_result ` set news"
    by (rule tool_messages_results)
  then show "set (List.map_filter tool_result_of (tool_messages (fst acc) (msg_tool_calls rm)))
           \<subseteq> inv_result ` set (drop (length (tool_invocations st)) (tool_invocations st'))"
    by (simp add: acc n)
qed

lemma chat_endpoint_reply:
  assumes "chat_endpoint post second_call uid cid msgs rm st = (Inr resp, st')"
  shows "cr_tool_calls resp = (if msg_tool_calls rm = [] then None else Some (msg_tool_calls rm))"
    and "msg_tool_calls rm = [] \<longrightarrow> cr_message resp = py_or (msg_content rm) ''I processed your request.''"
    and "msg_tool_calls rm \<noteq> [] \<longrightarrow>
          (\<exists>fm. second_call (second_call_messages post uid cid msgs rm st) = Some fm
             \<and> cr_message resp = py_or (msg_content fm) ''Operation completed successfully.'')"
proof -
  show "msg_tool_calls rm = [] \<longrightarrow> cr_message resp = py_or (msg_content rm) ''I processed your request.''"
    using assms by (auto simp: chat_endpoint_def)
  have tc: "msg_tool_calls rm \<noteq> [] \<longrightarrow> cr_tool_calls resp = Some (msg_tool_calls rm) \<and>
          (\<exists>fm. second_call (second_call_messages post uid cid msgs rm st) = Some fm
             \<and> cr_message resp = py_or (msg_content fm) ''Operation completed successfully.'')"
  proof
    assume ne: "msg_tool_calls rm \<noteq> []"
    obtain r st1 where loop: "tool_call_loop post uid cid (msg_tool_calls rm) (Map.empty, []) st = (r, st1)"
      by (cases "tool_call_loop post uid cid (msg_tool_calls rm) (Map.empty, []) st")
    from assms ne loop obtain acc where r: "r = Inr acc"
      by (cases r) (simp_all add: chat_endpoint_def)
    obtain cache' calls' where acc: "acc = (cache', calls')" by (cases acc)
    from tool_call_loop_result[OF loop[unfolded r acc]] have c: "calls' = msg_tool_calls rm" by simp
    have m: "second_call_messages post uid cid msgs rm st = api_messages msgs rm acc"
      by (simp add: second_call_messages_def loop r)
    from assms ne loop r obtain fm where fm: "second_call (api_messages msgs rm acc) = Some fm"
      by (cases "second_call (api_messages msgs rm acc)") (simp_all add: chat_endpoint_def)
    from assms ne loop r fm acc c
    have "cr_tool_calls resp = Some (msg_tool_calls rm)"
      "cr_message resp = py_or (msg_content fm) ''Operation completed successfully.''"
      by (auto simp: chat_endpoint_def final_response_content_eq)
    with fm m show "cr_tool_calls resp = Some (msg_tool_calls rm) \<and>
          (\<exists>fm. second_call (second_call_messages post uid cid msgs rm st) = Some fm
             \<and> cr_message resp = py_or (msg_content fm) ''Operation completed successfully.'')"
      by simp
  qed
  then show "msg_tool_calls rm \<noteq> [] \<longrightarrow>
          (\<exists>fm. second_call (second_call_messages post uid cid msgs rm st) = Some fm
             \<and> cr_message resp = py_or (msg_content fm) ''Operation completed successfully.'')"
    by blast
  show "cr_tool_calls resp = (if msg_tool_calls rm = [] then None else Some (msg_tool_calls rm))"
    using tc assms by (auto simp: chat_endpoint_def)
qed

lemma add_turn_chat:
  "\<exists>resp st'. chat_endpoint (mcp_server ''t1'' 9) text_reply ''u'' ''conv'' [] add_response example_state
     = (Inr resp, st')"
proof -
  have "msg_tool_calls add_response \<noteq> []" by (simp add: add_response_def)
  then show ?thesis
    by (simp add: chat_endpoint_def add_turn_loop text_reply_def)
qed

lemma map_add_cons: "m(k \<mapsto> v) ++ map_of (rev xs) = m ++ map_of (rev ((k, v) # xs))"
  by simp

lemma tool_call_loop_cache:
  "tool_call_loop post uid cid tcs (cache, calls) st = (Inr (cache', calls'), st') \<Longrightarrow>
   \<exists>news. tool_invocations st' = tool_invocations st @ news \<and> length news = length tcs
     \<and> cache' = cache ++ map_of (rev (zip (map tc_id tcs) (map inv_result news)))"
proof (induction tcs arbitrary: cache calls st)
  case Nil
  then show ?case by simp
next
  case (Cons tc tcs)
  from Cons.prems obtain decoded where dec: "tc_arguments tc = Some decoded"
    by (cases "tc_arguments tc") simp_all
  obtain r w' where call: "call_mcp_tool post (tc_name tc) (decoded(''user_id'' \<mapsto> JStr uid)) (mcp st) = (r, w')"
    by (cases "call_mcp_tool post (tc_name tc) (decoded(''user_id'' \<mapsto> JStr uid)) (mcp st)")
  let ?inv = "\<lparr>inv_conversation_id = cid, inv_tool_name = tc_name tc,
               inv_parameters = decoded(''user_id'' \<mapsto> JStr uid), inv_result = r\<rparr>"
  let ?st1 = "st\<lparr>mcp := w', tool_invocations := tool_invocations st @ [?inv]\<rparr>"
  from Cons.prems have rest: "tool_call_loop post uid cid tcs (cache(tc_id tc \<mapsto> r), calls @ [tc]) ?st1
      = (Inr (cache', calls'), st')"
    by (simp add: dec call Let_def)
  from Cons.IH[OF rest] obtain news where
    n: "tool_invocations st' = tool_invocations ?st1 @ news"
    and l: "length news = length tcs"
    and c: "cache' = cache(tc_id tc \<mapsto> r) ++ map_of (rev (zip (map tc_id tcs) (map inv_result news)))"
    by blast
  have z: "zip (map tc_id (tc # tcs)) (map inv_result (?inv # news))
      = (tc_id tc, r) # zip (map tc_id tcs) (map inv_result news)"
    by simp
  have "cache' = cache ++ map_of (rev (zip (map tc_id (tc # tcs)) (map inv_result (?inv # news))))"
    unfolding z c by (rule map_add_cons)
  moreover have "tool_invocations st' = tool_invocations st @ (?inv # news)" using n by simp
  moreover have "length (?inv # news) = length (tc # tcs)" using l by simp
  ultimately show ?case by blast
qed

lemma tool_messages_lookup:
  "\<forall>tc\<in>set tcs. cache (tc_id tc) \<noteq> None \<Longrightarrow>
   map tool_result_of (tool_messages cache tcs) = map (\<lambda>tc. cache (tc_id tc)) tcs"
  by (induction tcs) (auto simp: tool_messages_def)

lemma tool_messages_zip:
  "length tcs = length ys \<Longrightarrow> \<forall>p\<in>set (zip tcs ys). cache (tc_id (fst p)) = Some (g (snd p)) \<Longrightarrow>
   tool_messages cache tcs = map (\<lambda>p. Tool_message (g (snd p)) (tc_id (fst p))) (zip tcs ys)"
  by (induction tcs ys rule: list_induct2) (auto simp: tool_messages_def)

lemma map_of_rev_distinct:
  "distinct (map fst xs) \<Longrightarrow> map_of (rev xs) = map_of xs"
proof (induction xs)
  case Nil
  then show ?case by simp
next
  case (Cons x xs)
  then have "fst x \<notin> dom (map_of xs)" by (simp add: dom_map_of_conv_image_fst)
  then have "map_of xs (fst x) = None" by blast
  with Cons show ?case
    by (cases x) (auto simp: map_add_def fun_eq_iff split: option.splits)
qed

lemma second_call_each_result:
  assumes "tool_call_loop post uid cid (msg_tool_calls rm) (Map.empty, []) st = (Inr acc, st')"
  shows "length (drop (length (tool_invocations st)) (tool_invocations st')) = length (msg_tool_calls rm)"
    and "map tool_result_of (tool_messages (fst acc) (msg_tool_calls rm))
           = map (\<lambda>tc. map_of (rev (zip (map tc_id (msg_tool_calls rm))
                   (map inv_result (drop (length (tool_invocations st)) (tool_invocations st')))))
                   (tc_id tc)) (msg_tool_calls rm)"
    and "distinct (map tc_id (msg_tool_calls rm)) \<longrightarrow>
         tool_messages (fst acc) (msg_tool_calls rm)
           = map (\<lambda>p. Tool_message (inv_result (snd p)) (tc_id (fst p)))
               (zip (msg_tool_calls rm) (drop (length (tool_invocations st)) (tool_invocations st')))"
proof -
  let ?tcs = "msg_tool_calls rm"
  obtain cache' calls' where acc: "acc = (cache', calls')" by (cases acc)
  from tool_call_loop_cache[OF assms[unfolded acc]] obtain news where
    n: "tool_invocations st' = tool_invocations st @ news"
    and l: "length news = length ?tcs"
    and c: "cache' = map_of (rev (zip (map tc_id ?tcs) (map inv_result news)))"
    by auto
  have d: "drop (length (tool_invocations st)) (tool_invocations st') = news" using n by simp
  show "length (drop (length (tool_invocations st)) (tool_invocations st')) = length ?tcs"
    unfolding d by (rule l)
  from tool_call_loop_result[OF assms[unfolded acc]]
  have "\<forall>tc\<in>set ?tcs. cache' (tc_id tc) \<noteq> None" by fastforce
  from tool_messages_lookup[OF this]
  show "map tool_result_of (tool_messages (fst acc) ?tcs)
           = map (\<lambda>tc. map_of (rev (zip (map tc_id ?tcs)
                   (map inv_result (drop (length (tool_invocations st)) (tool_invocations st')))))
                   (tc_id tc)) ?tcs"
    unfolding d acc fst_conv c .
  show "distinct (map tc_id ?tcs) \<longrightarrow>
         tool_messages (fst acc) ?tcs
           = map (\<lambda>p. Tool_message (inv_result (snd p)) (tc_id (fst p)))
               (zip ?tcs (drop (length (tool_invocations st)) (tool_invocations st')))"
  proof
    assume dist: "distinct (map tc_id ?tcs)"
    have len: "length (map tc_id ?tcs) = length (map inv_result news)" using l by simp
    have "map fst (zip (map tc_id ?tcs) (map inv_result news)) = map tc_id ?tcs"
      using len by (simp add: map_fst_zip)
    with dist have c': "cache' = map_of (zip (map tc_id ?tcs) (map inv_result news))"
      unfolding c by (intro map_of_rev_distinct) simp
    have "\<forall>p\<in>set (zip ?tcs news). cache' (tc_id (fst p)) = Some (inv_result (snd p))"
    proof
      fix p assume "p \<in> set (zip ?tcs news)"
      then obtain j where j: "j < length ?tcs" "?tcs ! j = fst p" "news ! j = snd p"
        by (auto simp: set_zip)
      from map_of_zip_nth[OF len dist, of j] j l
      show "cache' (tc_id (fst p)) = Some (inv_result (snd p))"
        unfolding c' by simp
    qed
    from tool_messages_zip[OF l[symmetric] this]
    show "tool_messages (fst acc) ?tcs
           = map (\<lambda>p. Tool_message (inv_result (snd p)) (tc_id (fst p)))
               (zip ?tcs (drop (length (tool_invocations st)) (tool_invocations st')))"
      unfolding d acc fst_conv .
  qed
qed

lemma example_delete_after_add:
  "delete_task_tool \<lparr>del_task_position = 1, del_user_id = ''u''\<rparr> (example_table @ [milk_task])
   = (Inr (Deleted_body 1), [example_table ! Suc 0, example_table ! 2, example_table ! 3, milk_task])"
  by (simp add: delete_task_tool_def Let_def reraise_500_Inr get_user_tasks_def session_delete_def
      example_table_def milk_task_def)

lemma add_then_delete_loop:
  "tool_call_loop (mcp_server ''t1'' 9) ''u'' ''conv'' (msg_tool_calls (add_then_delete i j)) (Map.empty, [])
     example_state
   = (Inr ([i \<mapsto> Result (Task_body (task_response milk_task)), j \<mapsto> Result (Deleted_body 1)],
           msg_tool_calls (add_then_delete i j)),
      \<lparr>mcp = [example_table ! Suc 0, example_table ! 2, example_table ! 3, milk_task],
       tool_invocations =
         [\<lparr>inv_conversation_id = ''conv'', inv_tool_name = ''add_task'',
           inv_parameters = [''title'' \<mapsto> JStr ''Buy milk'', ''user_id'' \<mapsto> JStr ''u''],
           inv_result = Result (Task_body (task_response milk_task))\<rparr>,
          \<lparr>inv_conversation_id = ''conv'', inv_tool_name = ''delete_task'',
           inv_parameters = [''task_position'' \<mapsto> JInt 1, ''user_id'' \<mapsto> JStr ''u''],
           inv_result = Result (Deleted_body 1)\<rparr>],
       saved_messages = []\<rparr>)"
proof -
  have a: "add_task_tool ''t1'' 9 9 \<lparr>add_title = ''Buy milk'', add_description = [], add_user_id = ''u''\<rparr>
             example_table = (Inr (Task_body (task_response milk_task)), example_table @ [milk_task])"
    using example_add by (simp add: milk_task_def)
  show ?thesis
    by (simp add: add_then_delete_def delete_call_def example_state_def Let_def call_add_task
        call_delete_task a example_delete_after_add)
qed

section \<open>Bulk deletion by position\<close>

lemma two_ascending:
  assumes "unique_ids db" and "uid \<noteq> []" and "3 \<le> length (get_user_tasks uid db)"
  shows "\<exists>db'. delete_by_positions uid [1, 2] db = ([Inr (Deleted_body 1), Inr (Deleted_body 2)], db')
          \<and> get_user_tasks uid db' = get_user_tasks uid db ! 1 # drop 3 (get_user_tasks uid db)"
proof -
  let ?found = "get_user_tasks uid db"
  let ?db1 = "session_delete (?found ! 0) db"
  have s1: "delete_task_tool \<lparr>del_task_position = 1, del_user_id = uid\<rparr> db = (Inr (Deleted_body 1), ?db1)"
    using delete_in_range[of uid 1 db] assms by simp
  have ne: "0 < length ?found" "1 < length (drop 1 ?found)"
    using assms(3) by (linarith, simp)
  have f1: "get_user_tasks uid ?db1 = drop 1 ?found"
    using session_delete_owner[OF assms(1) ne(1)] by simp
  have u1: "unique_ids ?db1" by (rule unique_ids_session_delete[OF assms(1)])
  let ?db2 = "session_delete (get_user_tasks uid ?db1 ! 1) ?db1"
  have s2: "delete_task_tool \<lparr>del_task_position = 2, del_user_id = uid\<rparr> ?db1 = (Inr (Deleted_body 2), ?db2)"
    using delete_in_range[of uid 2 ?db1] assms f1 by simp
  have "get_user_tasks uid ?db2 = take 1 (drop 1 ?found) @ drop 2 (drop 1 ?found)"
    using session_delete_owner[OF u1, of 1 uid] ne(2) unfolding f1 by (simp add: numeral_2_eq_2)
  also have "\<dots> = ?found ! 1 # drop 3 ?found"
    using assms(3) by (simp add: take_Suc_conv_app_nth numeral_3_eq_3)
  finally show ?thesis using s1 s2 by simp
qed

text \<open>
  Claim C1. For an owner with \<open>N\<close> tasks in a table with unique identifiers, the requests
  \<open>delete(N), delete(N - 1), ..., delete(1)\<close>, each scanning the table afresh, all succeed
  and leave the owner without tasks, and no row of another owner changes. The same
  positions in ascending order \<open>1, 2, ..., N\<close> leave exactly the tasks that were at
  the positions 2, 4, 6, ...: from three tasks on, the request for position 2 removes the
  task that was third and keeps the one that was second.
\<close>

theorem bulk_delete_order:
  assumes "unique_ids db" and "uid \<noteq> []"
  shows "(\<exists>db'. delete_by_positions uid (rev (map int [1..<Suc (length (get_user_tasks uid db))])) db
            = (map (\<lambda>p. Inr (Deleted_body p)) (rev (map int [1..<Suc (length (get_user_tasks uid db))])), db')
          \<and> get_user_tasks uid db' = [] \<and> others_kept uid db db')
       \<and> (\<exists>rs db'. delete_by_positions uid (map int [1..<Suc (length (get_user_tasks uid db))]) db = (rs, db')
          \<and> get_user_tasks uid db' = even_positions (get_user_tasks uid db) \<and> others_kept uid db db')
       \<and> (3 \<le> length (get_user_tasks uid db) \<longrightarrow>
            (\<exists>db'. delete_by_positions uid [1, 2] db = ([Inr (Deleted_body 1), Inr (Deleted_body 2)], db')
              \<and> get_user_tasks uid db' = get_user_tasks uid db ! 1 # drop 3 (get_user_tasks uid db)))"
proof (intro conjI impI)
  show "\<exists>db'. delete_by_positions uid (rev (map int [1..<Suc (length (get_user_tasks uid db))])) db
            = (map (\<lambda>p. Inr (Deleted_body p)) (rev (map int [1..<Suc (length (get_user_tasks uid db))])), db')
          \<and> get_user_tasks uid db' = [] \<and> others_kept uid db db'"
    using descending_deletes_all[OF assms refl] by blast
next
  show "\<exists>rs db'. delete_by_positions uid (map int [1..<Suc (length (get_user_tasks uid db))]) db = (rs, db')
          \<and> get_user_tasks uid db' = even_positions (get_user_tasks uid db) \<and> others_kept uid db db'"
    using ascending_deletes_general[OF assms, of 0 "length (get_user_tasks uid db)"] by auto
next
  assume "3 \<le> length (get_user_tasks uid db)"
  then show "\<exists>db'. delete_by_positions uid [1, 2] db = ([Inr (Deleted_body 1), Inr (Deleted_body 2)], db')
              \<and> get_user_tasks uid db' = get_user_tasks uid db ! 1 # drop 3 (get_user_tasks uid db)"
    by (rule two_ascending[OF assms])
qed

lemma example_unique: "unique_ids example_table"
  by (simp add: unique_ids_def example_table_def)

lemma example_found: "map title (get_user_tasks ''u'' example_table) = [''A'', ''B'', ''C'']"
  by (simp add: get_user_tasks_def example_table_def)

theorem bulk_delete_order_witness:
  "unique_ids example_table \<and> ''u'' \<noteq> [] \<and> 3 \<le> length (get_user_tasks ''u'' example_table)
   \<and> (\<exists>db'. delete_by_positions ''u'' [3, 2, 1] example_table
          = ([Inr (Deleted_body 3), Inr (Deleted_body 2), Inr (Deleted_body 1)], db')
        \<and> get_user_tasks ''u'' db' = [])
   \<and> (\<exists>rs db'. delete_by_positions ''u'' [1, 2, 3] example_table = (rs, db')
        \<and> map title (get_user_tasks ''u'' db') = [''B''])
   \<and> (\<exists>db'. delete_by_positions ''u'' [1, 2] example_table = ([Inr (Deleted_body 1), Inr (Deleted_body 2)], db')
        \<and> map title (get_user_tasks ''u'' db') = [''B''])"
proof -
  have u: "unique_ids example_table" by (rule example_unique)
  have n: "''u'' \<noteq> []" by simp
  have len: "length (get_user_tasks ''u'' example_table) = 3"
    using arg_cong[OF example_found, of length] by simp
  have up: "[1..<Suc 3] = [1, 2, 3]" by (simp add: upt_rec)
  have ev: "map title (even_positions (get_user_tasks ''u'' example_table)) = [''B'']"
    by (simp add: get_user_tasks_def example_table_def)
  have nth: "map title (get_user_tasks ''u'' example_table ! 1 # drop 3 (get_user_tasks ''u'' example_table)) = [''B'']"
    by (simp add: get_user_tasks_def example_table_def)
  from bulk_delete_order[OF u n] show ?thesis
    unfolding len up using u ev nth by auto
qed

section \<open>The range check on positions\<close>

text \<open>
  Claim C3. With \<open>N\<close> the number of rows a fresh scan finds for the owner,
  \<open>get_task_by_position\<close> returns the row of rank \<open>k\<close> (with index \<open>k - 1\<close>) when
  \<open>1 \<le> k \<le> N\<close> and raises the 404 "not found" exception otherwise, so for every \<open>k\<close>
  when \<open>N = 0\<close>. For a non-empty owner, the delete and the completion tool, and the update
  tool when a field is given, succeed exactly when \<open>1 \<le> k \<le> N\<close> and then act on the row
  of rank \<open>k\<close>; out of range they leave the table as it is and fail with the same 404
  exception, which their handler re-raises with status 500.
\<close>

theorem position_range_check:
  "get_task_by_position uid k db =
     (if 1 \<le> k \<and> k \<le> int (length (get_user_tasks uid db))
      then Inr (get_user_tasks uid db ! nat (k - 1), k - 1)
      else Inl (HTTPException 404 (Task_at_position_not_found k)))
   \<and> ((\<exists>r. get_task_by_position uid k db = Inr r) \<longleftrightarrow> 1 \<le> k \<and> k \<le> int (length (get_user_tasks uid db)))
   \<and> (uid \<noteq> [] \<longrightarrow>
        ((\<exists>b. fst (delete_task_tool \<lparr>del_task_position = k, del_user_id = uid\<rparr> db) = Inr b)
            \<longleftrightarrow> 1 \<le> k \<and> k \<le> int (length (get_user_tasks uid db)))
      \<and> ((\<exists>b. fst (complete_task_tool now \<lparr>cmp_task_position = k, cmp_user_id = uid, cmp_completed = c\<rparr> db) = Inr b)
            \<longleftrightarrow> 1 \<le> k \<and> k \<le> int (length (get_user_tasks uid db)))
      \<and> (ti \<noteq> None \<or> de \<noteq> None \<longrightarrow>
           ((\<exists>b. fst (update_task_tool now \<lparr>upd_task_position = k, upd_user_id = uid, upd_title = ti, upd_description = de\<rparr> db) = Inr b)
            \<longleftrightarrow> 1 \<le> k \<and> k \<le> int (length (get_user_tasks uid db)))))
   \<and> (uid \<noteq> [] \<and> (k < 1 \<or> int (length (get_user_tasks uid db)) < k) \<longrightarrow>
        delete_task_tool \<lparr>del_task_position = k, del_user_id = uid\<rparr> db
          = (Inl (HTTPException 500 (Error_deleting_task (HTTPException 404 (Task_at_position_not_found k)))), db)
      \<and> complete_task_tool now \<lparr>cmp_task_position = k, cmp_user_id = uid, cmp_completed = c\<rparr> db
          = (Inl (HTTPException 500 (Error_updating_task_completion (HTTPException 404 (Task_at_position_not_found k)))), db)
      \<and> (ti \<noteq> None \<or> de \<noteq> None \<longrightarrow>
           update_task_tool now \<lparr>upd_task_position = k, upd_user_id = uid, upd_title = ti, upd_description = de\<rparr> db
          = (Inl (HTTPException 500 (Error_updating_task (HTTPException 404 (Task_at_position_not_found k)))), db)))
   \<and> (uid \<noteq> [] \<and> 1 \<le> k \<and> k \<le> int (length (get_user_tasks uid db)) \<longrightarrow>
        delete_task_tool \<lparr>del_task_position = k, del_user_id = uid\<rparr> db
          = (Inr (Deleted_body k), session_delete (get_user_tasks uid db ! nat (k - 1)) db)
      \<and> complete_task_tool now \<lparr>cmp_task_position = k, cmp_user_id = uid, cmp_completed = c\<rparr> db
          = (Inr (Task_body (task_response ((get_user_tasks uid db ! nat (k - 1))\<lparr>completed := c, updated_at := now\<rparr>))),
             session_update ((get_user_tasks uid db ! nat (k - 1))\<lparr>completed := c, updated_at := now\<rparr>) db))"
proof -
  let ?N = "int (length (get_user_tasks uid db))"
  have g: "get_task_by_position uid k db =
     (if 1 \<le> k \<and> k \<le> ?N then Inr (get_user_tasks uid db ! nat (k - 1), k - 1)
      else Inl (HTTPException 404 (Task_at_position_not_found k)))"
    by (auto simp: get_task_by_position_def Let_def)
  have g': "(\<exists>r. get_task_by_position uid k db = Inr r) \<longleftrightarrow> 1 \<le> k \<and> k \<le> ?N"
    unfolding g by auto
  have inr: "uid \<noteq> [] \<and> 1 \<le> k \<and> k \<le> ?N \<longrightarrow>
        delete_task_tool \<lparr>del_task_position = k, del_user_id = uid\<rparr> db
          = (Inr (Deleted_body k), session_delete (get_user_tasks uid db ! nat (k - 1)) db)
      \<and> complete_task_tool now \<lparr>cmp_task_position = k, cmp_user_id = uid, cmp_completed = c\<rparr> db
          = (Inr (Task_body (task_response ((get_user_tasks uid db ! nat (k - 1))\<lparr>completed := c, updated_at := now\<rparr>))),
             session_update ((get_user_tasks uid db ! nat (k - 1))\<lparr>completed := c, updated_at := now\<rparr>) db)"
    using delete_in_range[of uid k db] complete_table_in[of uid k db now c] by blast
  have out: "uid \<noteq> [] \<and> (k < 1 \<or> ?N < k) \<longrightarrow>
        delete_task_tool \<lparr>del_task_position = k, del_user_id = uid\<rparr> db
          = (Inl (HTTPException 500 (Error_deleting_task (HTTPException 404 (Task_at_position_not_found k)))), db)
      \<and> complete_task_tool now \<lparr>cmp_task_position = k, cmp_user_id = uid, cmp_completed = c\<rparr> db
          = (Inl (HTTPException 500 (Error_updating_task_completion (HTTPException 404 (Task_at_position_not_found k)))), db)
      \<and> (ti \<noteq> None \<or> de \<noteq> None \<longrightarrow>
           update_task_tool now \<lparr>upd_task_position = k, upd_user_id = uid, upd_title = ti, upd_description = de\<rparr> db
          = (Inl (HTTPException 500 (Error_updating_task (HTTPException 404 (Task_at_position_not_found k)))), db))"
    using delete_out_of_range[of uid k db] complete_out_of_range[of uid k db now c]
      update_out_of_range[of uid ti de k db now] by blast
  have d: "uid \<noteq> [] \<longrightarrow> ((\<exists>b. fst (delete_task_tool \<lparr>del_task_position = k, del_user_id = uid\<rparr> db) = Inr b)
            \<longleftrightarrow> 1 \<le> k \<and> k \<le> ?N)"
  proof (cases "1 \<le> k \<and> k \<le> ?N")
    case True
    with inr show ?thesis by simp
  next
    case False
    then have "k < 1 \<or> ?N < k" by auto
    with out False show ?thesis by auto
  qed
  have c: "uid \<noteq> [] \<longrightarrow> ((\<exists>b. fst (complete_task_tool now \<lparr>cmp_task_position = k, cmp_user_id = uid, cmp_completed = c\<rparr> db) = Inr b)
            \<longleftrightarrow> 1 \<le> k \<and> k \<le> ?N)"
  proof (cases "1 \<le> k \<and> k \<le> ?N")
    case True
    with inr show ?thesis by simp
  next
    case False
    then have "k < 1 \<or> ?N < k" by auto
    with out False show ?thesis by auto
  qed
  have u: "uid \<noteq> [] \<longrightarrow> ti \<noteq> None \<or> de \<noteq> None \<longrightarrow>
           ((\<exists>b. fst (update_task_tool now \<lparr>upd_task_position = k, upd_user_id = uid, upd_title = ti, upd_description = de\<rparr> db) = Inr b)
            \<longleftrightarrow> 1 \<le> k \<and> k \<le> ?N)"
  proof (cases "1 \<le> k \<and> k \<le> ?N")
    case True
    then show ?thesis using update_in_range[of uid ti de k db now] by (auto simp: Let_def)
  next
    case False
    then have "k < 1 \<or> ?N < k" by auto
    with out False show ?thesis by auto
  qed
  from g g' d c u out inr show ?thesis by blast
qed

theorem position_range_check_witness:
  "''u'' \<noteq> [] \<and> length (get_user_tasks ''u'' example_table) = 3
   \<and> get_task_by_position ''u'' 2 example_table = Inr (example_table ! 2, 1)
   \<and> get_task_by_position ''u'' 4 example_table = Inl (HTTPException 404 (Task_at_position_not_found 4))
   \<and> get_task_by_position ''u'' 0 example_table = Inl (HTTPException 404 (Task_at_position_not_found 0))
   \<and> get_task_by_position ''u'' 1 [] = Inl (HTTPException 404 (Task_at_position_not_found 1))
   \<and> fst (delete_task_tool \<lparr>del_task_position = 2, del_user_id = ''u''\<rparr> example_table) = Inr (Deleted_body 2)
   \<and> fst (delete_task_tool \<lparr>del_task_position = 4, del_user_id = ''u''\<rparr> example_table)
       = Inl (HTTPException 500 (Error_deleting_task (HTTPException 404 (Task_at_position_not_found 4))))
   \<and> fst (update_task_tool 9 \<lparr>upd_task_position = 4, upd_user_id = ''u'', upd_title = Some ''T'', upd_description = None\<rparr> example_table)
       = Inl (HTTPException 500 (Error_updating_task (HTTPException 404 (Task_at_position_not_found 4))))"
proof -
  have n: "''u'' \<noteq> []" by simp
  have len: "length (get_user_tasks ''u'' example_table) = 3" by (simp add: example_scan)
  have e: "length (get_user_tasks ''u'' []) = 0" by (simp add: get_user_tasks_def)
  have nth: "get_user_tasks ''u'' example_table ! nat (2 - 1) = example_table ! 2"
    by (simp add: example_scan)
  note in2 = position_range_check[of "''u''" 2 example_table 9 True "Some ''T''" None]
  note out4 = position_range_check[of "''u''" 4 example_table 9 True "Some ''T''" None]
  note out0 = position_range_check[of "''u''" 0 example_table 9 True "Some ''T''" None]
  note emp = position_range_check[of "''u''" 1 "[]" 9 True "Some ''T''" None]
  have a: "get_task_by_position ''u'' 2 example_table = Inr (example_table ! 2, 1)"
    using in2 unfolding len nth by simp
  have b: "get_task_by_position ''u'' 4 example_table = Inl (HTTPException 404 (Task_at_position_not_found 4))"
    using out4 unfolding len by simp
  have c: "get_task_by_position ''u'' 0 example_table = Inl (HTTPException 404 (Task_at_position_not_found 0))"
    using out0 unfolding len by simp
  have d: "get_task_by_position ''u'' 1 [] = Inl (HTTPException 404 (Task_at_position_not_found 1))"
    using emp unfolding e by simp
  have f: "fst (delete_task_tool \<lparr>del_task_position = 2, del_user_id = ''u''\<rparr> example_table) = Inr (Deleted_body 2)"
    using in2 n unfolding len by simp
  have g: "fst (delete_task_tool \<lparr>del_task_position = 4, del_user_id = ''u''\<rparr> example_table)
       = Inl (HTTPException 500 (Error_deleting_task (HTTPException 404 (Task_at_position_not_found 4))))"
    using out4 n unfolding len by simp
  have h: "fst (update_task_tool 9 \<lparr>upd_task_position = 4, upd_user_id = ''u'', upd_title = Some ''T'', upd_description = None\<rparr> example_table)
       = Inl (HTTPException 500 (Error_updating_task (HTTPException 404 (Task_at_position_not_found 4))))"
    using out4 n unfolding len by simp
  from n len a b c d f g h show ?thesis by blast
qed

section \<open>Positions in a listing\<close>

text \<open>
  Claim C6. The listing of an owner is the pending entries followed by the completed ones;
  every entry carries the 1-indexed rank its task has in the scan of the owner's rows, each
  rank once, whatever the grouping. Marking any position complete or incomplete leaves the
  position shown for every identifier as it was. For the additions \<open>A\<close>, \<open>B\<close>, \<open>C\<close> the
  listing shows 1, 2, 3; after completing \<open>B\<close> it shows \<open>A\<close> at 1, \<open>C\<close> at 3 and
  \<open>B\<close>, now last in display order, still at 2.
\<close>

theorem list_positions_scan_order:
  assumes "uid \<noteq> []"
  shows "\<exists>L. listing_of uid db = Some L
     \<and> list_tasks L = list_pending_tasks L @ list_completed_tasks L
     \<and> length (list_tasks L) = length (get_user_tasks uid db)
     \<and> distinct (map position (list_tasks L))
     \<and> (\<forall>d\<in>set (list_tasks L).
           1 \<le> position d \<and> position d \<le> int (length (get_user_tasks uid db))
           \<and> td_task d = task_response (get_user_tasks uid db ! nat (position d - 1)))
     \<and> (\<forall>d\<in>set (list_pending_tasks L). \<not> resp_completed (td_task d))
     \<and> (\<forall>d\<in>set (list_completed_tasks L). resp_completed (td_task d))
     \<and> (unique_ids db \<longrightarrow>
          (\<forall>now k c. \<exists>L'. listing_of uid (snd (complete_task_tool now
                \<lparr>cmp_task_position = k, cmp_user_id = uid, cmp_completed = c\<rparr> db)) = Some L'
              \<and> id_positions L' = id_positions L))
     \<and> title_positions (listing_of ''u'' abc_table) = [(''A'', 1), (''B'', 2), (''C'', 3)]
     \<and> title_positions (listing_of ''u'' (snd (complete_task_tool 9
            \<lparr>cmp_task_position = 2, cmp_user_id = ''u'', cmp_completed = True\<rparr> abc_table)))
         = [(''A'', 1), (''C'', 3), (''B'', 2)]"
proof -
  obtain L where L: "listing_of uid db = Some L"
    using listing_of_Some[OF assms] by blast
  note parts = listing_parts[OF assms L]
  have ranks: "\<forall>d\<in>set (list_tasks L).
           1 \<le> position d \<and> position d \<le> int (length (get_user_tasks uid db))
           \<and> td_task d = task_response (get_user_tasks uid db ! nat (position d - 1))"
    using positions_are_ranks[OF assms L] by blast
  have keep: "unique_ids db \<longrightarrow>
          (\<forall>now k c. \<exists>L'. listing_of uid (snd (complete_task_tool now
                \<lparr>cmp_task_position = k, cmp_user_id = uid, cmp_completed = c\<rparr> db)) = Some L'
              \<and> id_positions L' = id_positions L)"
    using complete_keeps_positions[OF assms _ L] by blast
  show ?thesis
    using L parts(1,2,3,4) positions_distinct[OF assms L] ranks keep abc_listing abc_after_complete
    by blast
qed

lemma example_listing:
  "title_positions (listing_of ''u'' example_table) = [(''A'', 1), (''B'', 2), (''C'', 3)]"
  by (simp add: example_table_def title_positions_def listing_of_def list_tasks_tool_eq Let_def
      get_user_tasks_def enumerate_simps tagged_def task_response_def)

theorem list_positions_scan_order_witness:
  "''u'' \<noteq> [] \<and> unique_ids example_table
   \<and> title_positions (listing_of ''u'' example_table) = [(''A'', 1), (''B'', 2), (''C'', 3)]
   \<and> (\<exists>L L'. listing_of ''u'' example_table = Some L
        \<and> distinct (map position (list_tasks L))
        \<and> listing_of ''u'' (snd (complete_task_tool 9
              \<lparr>cmp_task_position = 2, cmp_user_id = ''u'', cmp_completed = True\<rparr> example_table)) = Some L'
        \<and> id_positions L' = id_positions L)"
proof -
  have n: "''u'' \<noteq> []" by simp
  from list_positions_scan_order[OF n, of example_table]
  show ?thesis using n example_unique example_listing by blast
qed

section \<open>Adding a task\<close>

text \<open>
  Claim C7. \<open>add_task_tool\<close> answers with status 400 and leaves the table as it was when
  the title is empty, is blank after stripping, or the owner is empty; no failure of the
  tool changes the table. When it succeeds the title was not blank, the owner was not
  empty, and the table has grown by exactly one row, the new task, whose completion flag is
  false. A valid request with a fresh identifier does succeed.
\<close>

theorem add_validation:
  "(ti = [] \<or> strip ti = [] \<or> uid = [] \<longrightarrow>
      (\<exists>d. add_task_tool i n1 n2 \<lparr>add_title = ti, add_description = de, add_user_id = uid\<rparr> db
            = (Inl (HTTPException 400 d), db)))
   \<and> (\<forall>e db'. add_task_tool i n1 n2 \<lparr>add_title = ti, add_description = de, add_user_id = uid\<rparr> db
            = (Inl e, db') \<longrightarrow> db' = db)
   \<and> (\<forall>body db'. add_task_tool i n1 n2 \<lparr>add_title = ti, add_description = de, add_user_id = uid\<rparr> db
            = (Inr body, db') \<longrightarrow>
         strip ti \<noteq> [] \<and> uid \<noteq> [] \<and>
         (\<exists>t. db' = db @ [t] \<and> completed t = False \<and> task_id t = i \<and> user_id t = uid
              \<and> description t = de \<and> created_at t = n1 \<and> updated_at t = n2
              \<and> body = Task_body (task_response t)))
   \<and> (strip ti \<noteq> [] \<and> uid \<noteq> [] \<and> i \<notin> set (map task_id db) \<longrightarrow>
         (\<exists>body db'. add_task_tool i n1 n2 \<lparr>add_title = ti, add_description = de, add_user_id = uid\<rparr> db
            = (Inr body, db')))"
proof (intro conjI allI impI)
  assume "ti = [] \<or> strip ti = [] \<or> uid = []"
  then show "\<exists>d. add_task_tool i n1 n2 \<lparr>add_title = ti, add_description = de, add_user_id = uid\<rparr> db
            = (Inl (HTTPException 400 d), db)"
    by (rule add_invalid)
next
  fix e db'
  assume "add_task_tool i n1 n2 \<lparr>add_title = ti, add_description = de, add_user_id = uid\<rparr> db = (Inl e, db')"
  then show "db' = db" by (rule add_failure_keeps)
next
  fix body db'
  assume a: "add_task_tool i n1 n2 \<lparr>add_title = ti, add_description = de, add_user_id = uid\<rparr> db = (Inr body, db')"
  from add_success[OF a] show "strip ti \<noteq> []" "uid \<noteq> []" by simp_all
  from add_success[OF a] have ok: "strip ti \<noteq> []" "uid \<noteq> []" "i \<notin> set (map task_id db)" by simp_all
  from a add_ok[OF ok, of n1 n2 de]
  show "\<exists>t. db' = db @ [t] \<and> completed t = False \<and> task_id t = i \<and> user_id t = uid
              \<and> description t = de \<and> created_at t = n1 \<and> updated_at t = n2
              \<and> body = Task_body (task_response t)"
    by (auto simp: Let_def)
next
  assume "strip ti \<noteq> [] \<and> uid \<noteq> [] \<and> i \<notin> set (map task_id db)"
  then show "\<exists>body db'. add_task_tool i n1 n2 \<lparr>add_title = ti, add_description = de, add_user_id = uid\<rparr> db
            = (Inr body, db')"
    using add_ok[of ti uid i db n1 n2 de] by (simp add: Let_def)
qed

theorem add_validation_witness:
  "strip ''   '' = [] \<and> strip ''Buy milk'' \<noteq> [] \<and> ''new'' \<notin> set (map task_id example_table)
   \<and> (\<exists>d. add_task_tool ''new'' 5 6 \<lparr>add_title = ''   '', add_description = ''d'', add_user_id = ''u''\<rparr> example_table
            = (Inl (HTTPException 400 d), example_table))
   \<and> (\<exists>d. add_task_tool ''new'' 5 6 \<lparr>add_title = ''Buy milk'', add_description = ''d'', add_user_id = []\<rparr> example_table
            = (Inl (HTTPException 400 d), example_table))
   \<and> (\<exists>body db'. add_task_tool ''new'' 5 6 \<lparr>add_title = ''Buy milk'', add_description = ''d'', add_user_id = ''u''\<rparr> example_table
            = (Inr body, db') \<and> length db' = Suc (length example_table) \<and> \<not> completed (last db'))"
proof -
  have b: "strip ''   '' = []" by (simp add: strip_def isspace_def)
  have t: "strip ''Buy milk'' \<noteq> []" by (simp add: strip_def isspace_def)
  have f: "''new'' \<notin> set (map task_id example_table)" by (simp add: example_table_def)
  note v1 = add_validation[of "''   ''" "''u''" "''new''" 5 6 "''d''" example_table]
  note v2 = add_validation[of "''Buy milk''" "[]" "''new''" 5 6 "''d''" example_table]
  note v3 = add_validation[of "''Buy milk''" "''u''" "''new''" 5 6 "''d''" example_table]
  have c1: "\<exists>d. add_task_tool ''new'' 5 6 \<lparr>add_title = ''   '', add_description = ''d'', add_user_id = ''u''\<rparr> example_table
            = (Inl (HTTPException 400 d), example_table)"
    using v1 b by blast
  have c2: "\<exists>d. add_task_tool ''new'' 5 6 \<lparr>add_title = ''Buy milk'', add_description = ''d'', add_user_id = []\<rparr> example_table
            = (Inl (HTTPException 400 d), example_table)"
    using v2 by blast
  from v3 t f obtain body db' where
    ok: "add_task_tool ''new'' 5 6 \<lparr>add_title = ''Buy milk'', add_description = ''d'', add_user_id = ''u''\<rparr> example_table = (Inr body, db')"
    by blast
  with v3 obtain r where "db' = example_table @ [r]" "completed r = False" by blast
  then have "length db' = Suc (length example_table) \<and> \<not> completed (last db')" by simp
  with ok b t f c1 c2 show ?thesis by blast
qed

text \<open>
  Claim C10. For a request whose title is not blank after stripping, the stored title, and
  the title in the response, is the request's title character for character: stripping is
  used in the check only.
\<close>

theorem add_keeps_title:
  assumes "strip ti \<noteq> []" and "uid \<noteq> []" and "i \<notin> set (map task_id db)"
  shows "\<exists>t. add_task_tool i n1 n2 \<lparr>add_title = ti, add_description = de, add_user_id = uid\<rparr> db
                = (Inr (Task_body (task_response t)), db @ [t])
            \<and> title t = ti \<and> resp_title (task_response t) = ti"
  using add_ok[OF assms, of n1 n2 de] by (simp add: Let_def task_response_def)

theorem add_keeps_title_witness:
  "strip ''  Buy milk  '' = ''Buy milk'' \<and> ''u'' \<noteq> [] \<and> ''new'' \<notin> set (map task_id example_table)
   \<and> (\<exists>t. add_task_tool ''new'' 5 6 \<lparr>add_title = ''  Buy milk  '', add_description = [], add_user_id = ''u''\<rparr> example_table
                = (Inr (Task_body (task_response t)), example_table @ [t])
            \<and> title t = ''  Buy milk  '' \<and> resp_title (task_response t) = ''  Buy milk  '')"
proof -
  have s: "strip ''  Buy milk  '' = ''Buy milk''" by (simp add: strip_def isspace_def)
  then have s': "strip ''  Buy milk  '' \<noteq> []" by simp
  have n: "''u'' \<noteq> []" by simp
  have f: "''new'' \<notin> set (map task_id example_table)" by (simp add: example_table_def)
  from add_keeps_title[OF s' n f, of 5 6 "[]"] s n f show ?thesis by blast
qed

section \<open>Updating a task\<close>

text \<open>
  Claim C8. \<open>update_task_tool\<close> called with neither a title nor a description answers with
  status 400 and the table is unchanged; no failure of the tool changes the table. With a
  field given, a non-empty owner and a position in range, in a table with unique
  identifiers, exactly the row at that position changes: the title and the description
  take the given values where one is given and stay otherwise, the update time becomes the
  current time, and every other field and every other row stays.
\<close>

theorem update_requires_field:
  "(\<exists>d. update_task_tool now \<lparr>upd_task_position = k, upd_user_id = uid, upd_title = None, upd_description = None\<rparr> db
          = (Inl (HTTPException 400 d), db))
   \<and> (\<forall>r e db'. update_task_tool now r db = (Inl e, db') \<longrightarrow> db' = db)
   \<and> (unique_ids db \<and> uid \<noteq> [] \<and> (ti \<noteq> None \<or> de \<noteq> None)
        \<and> 1 \<le> k \<and> k \<le> int (length (get_user_tasks uid db)) \<longrightarrow>
        (\<exists>i<length db. db ! i = get_user_tasks uid db ! nat (k - 1)
           \<and> update_task_tool now \<lparr>upd_task_position = k, upd_user_id = uid, upd_title = ti, upd_description = de\<rparr> db
             = (let new = (db ! i)\<lparr>title := (case ti of None \<Rightarrow> title (db ! i) | Some v \<Rightarrow> v),
                      description := (case de of None \<Rightarrow> description (db ! i) | Some v \<Rightarrow> v),
                      updated_at := now\<rparr>
                in (Inr (Task_body (task_response new)), db[i := new]))))"
proof (intro conjI allI impI)
  show "\<exists>d. update_task_tool now \<lparr>upd_task_position = k, upd_user_id = uid, upd_title = None, upd_description = None\<rparr> db
          = (Inl (HTTPException 400 d), db)"
    by (simp add: update_no_fields)
next
  fix r e db'
  assume "update_task_tool now r db = (Inl e, db')"
  then show "db' = db" by (rule update_failure_keeps)
next
  assume a: "unique_ids db \<and> uid \<noteq> [] \<and> (ti \<noteq> None \<or> de \<noteq> None)
        \<and> 1 \<le> k \<and> k \<le> int (length (get_user_tasks uid db))"
  let ?old = "get_user_tasks uid db ! nat (k - 1)"
  let ?new = "?old\<lparr>title := (case ti of None \<Rightarrow> title ?old | Some v \<Rightarrow> v),
                      description := (case de of None \<Rightarrow> description ?old | Some v \<Rightarrow> v),
                      updated_at := now\<rparr>"
  from a have "nat (k - 1) < length (get_user_tasks uid db)" by auto
  then have "?old \<in> set (get_user_tasks uid db)" by (rule nth_mem)
  then have old: "?old \<in> set db" by (simp add: get_user_tasks_def)
  have "task_id ?new = task_id ?old" by simp
  from session_update_at[OF _ old this] a
  obtain i where i: "i < length db" "db ! i = ?old" "session_update ?new db = db[i := ?new]"
    by blast
  have upd: "update_task_tool now \<lparr>upd_task_position = k, upd_user_id = uid, upd_title = ti, upd_description = de\<rparr> db
        = (Inr (Task_body (task_response ?new)), db[i := ?new])"
    using update_in_range[of uid ti de k db now] a i(3) by (simp add: Let_def)
  show "\<exists>i<length db. db ! i = get_user_tasks uid db ! nat (k - 1)
           \<and> update_task_tool now \<lparr>upd_task_position = k, upd_user_id = uid, upd_title = ti, upd_description = de\<rparr> db
             = (let new = (db ! i)\<lparr>title := (case ti of None \<Rightarrow> title (db ! i) | Some v \<Rightarrow> v),
                      description := (case de of None \<Rightarrow> description (db ! i) | Some v \<Rightarrow> v),
                      updated_at := now\<rparr>
                in (Inr (Task_body (task_response new)), db[i := new]))"
  proof (intro exI[of _ i] conjI)
    show "i < length db" by (rule i(1))
    show "db ! i = get_user_tasks uid db ! nat (k - 1)" by (rule i(2))
    show "update_task_tool now \<lparr>upd_task_position = k, upd_user_id = uid, upd_title = ti, upd_description = de\<rparr> db
             = (let new = (db ! i)\<lparr>title := (case ti of None \<Rightarrow> title (db ! i) | Some v \<Rightarrow> v),
                      description := (case de of None \<Rightarrow> description (db ! i) | Some v \<Rightarrow> v),
                      updated_at := now\<rparr>
                in (Inr (Task_body (task_response new)), db[i := new]))"
      unfolding i(2) Let_def by (rule upd)
  qed
qed

theorem update_requires_field_witness:
  "unique_ids example_table \<and> ''u'' \<noteq> [] \<and> (2::int) \<le> int (length (get_user_tasks ''u'' example_table))
   \<and> update_task_tool 9 \<lparr>upd_task_position = 2, upd_user_id = ''u'', upd_title = None, upd_description = None\<rparr> example_table
       = (Inl (HTTPException 400 At_least_one_field_must_be_provided), example_table)
   \<and> snd (update_task_tool 9 \<lparr>upd_task_position = 2, upd_user_id = ''u'', upd_title = Some ''B2'', upd_description = None\<rparr> example_table)
       = example_table[2 := (example_table ! 2)\<lparr>title := ''B2'', updated_at := 9\<rparr>]"
proof -
  have n: "''u'' \<noteq> []" by simp
  have len: "int (length (get_user_tasks ''u'' example_table)) = 3" by (simp add: example_scan)
  have nth: "get_user_tasks ''u'' example_table ! nat (2 - 1) = example_table ! 2"
    by (simp add: example_scan)
  note none = update_requires_field[of 9 2 "''u''" example_table None None]
  note some = update_requires_field[of 9 2 "''u''" example_table "Some ''B2''" None]
  from none obtain d where d: "update_task_tool 9 \<lparr>upd_task_position = 2, upd_user_id = ''u'', upd_title = None, upd_description = None\<rparr> example_table
       = (Inl (HTTPException 400 d), example_table)" by blast
  then have d': "update_task_tool 9 \<lparr>upd_task_position = 2, upd_user_id = ''u'', upd_title = None, upd_description = None\<rparr> example_table
       = (Inl (HTTPException 400 At_least_one_field_must_be_provided), example_table)"
    by (simp add: update_no_fields)
  from some example_unique n len obtain i where i: "i < length example_table"
      "example_table ! i = get_user_tasks ''u'' example_table ! nat (2 - 1)"
      "update_task_tool 9 \<lparr>upd_task_position = 2, upd_user_id = ''u'', upd_title = Some ''B2'', upd_description = None\<rparr> example_table
             = (let new = (example_table ! i)\<lparr>title := ''B2'', description := description (example_table ! i), updated_at := 9\<rparr>
                in (Inr (Task_body (task_response new)), example_table[i := new]))"
    by auto
  from i(1,2) have "i = 2"
    unfolding nth using unique_ids_nth[OF example_unique, of i 2] by (simp add: example_table_def)
  with i(3) have "snd (update_task_tool 9 \<lparr>upd_task_position = 2, upd_user_id = ''u'', upd_title = Some ''B2'', upd_description = None\<rparr> example_table)
       = example_table[2 := (example_table ! 2)\<lparr>title := ''B2'', updated_at := 9\<rparr>]"
    by (simp add: Let_def)
  with example_unique n len d' show ?thesis by simp
qed

section \<open>The order of the tool calls of a turn\<close>

text \<open>
  Claim C2, as the code has it. The endpoint issues the tool calls of the model's response
  one after the other in the order the model gave them, up to the first whose arguments do
  not decode, each with the user's identifier written into its arguments; so the positions
  of the \<^verbatim>\<open>delete_task\<close> calls are issued in the model's order. Nothing sorts or checks
  them: descending order is asked of the model in the system instructions only.
\<close>

theorem tool_calls_in_model_order:
  "map name_and_parameters (tool_invocations (snd (chat_endpoint post second_call uid cid msgs rm st)))
     = map name_and_parameters (tool_invocations st) @ map (with_user_id uid) (decoded_prefix (msg_tool_calls rm))
   \<and> issued_delete_positions (tool_invocations (snd (chat_endpoint post second_call uid cid msgs rm st)))
     = issued_delete_positions (tool_invocations st)
       @ map (\<lambda>c. snd c ''task_position'') (filter (\<lambda>c. fst c = ''delete_task'') (decoded_prefix (msg_tool_calls rm)))"
  unfolding issued_delete_positions_alt chat_endpoint_invocations
  by (simp add: delete_positions_with_user_id)

text \<open>
  The claim as stated fails: when the model returns the deletions of positions 1 and 2 in
  this order, they are issued in this order, and owner \<open>u\<close> is left with \<open>B\<close> (the task
  \<open>C\<close>, third at the start, is gone).
\<close>

theorem ascending_order_issued:
  "issued_delete_positions (tool_invocations (snd (chat_endpoint (mcp_server ''n'' 9) text_reply ''u'' ''conv'' []
       ascending_response example_state))) = [Some (JInt 1), Some (JInt 2)]
   \<and> \<not> strictly_descending [Some (JInt 1), Some (JInt 2)]
   \<and> map title (mcp (snd (chat_endpoint (mcp_server ''n'' 9) text_reply ''u'' ''conv'' []
       ascending_response example_state))) = [''X'', ''B'']"
proof -
  have loop: "tool_call_loop (mcp_server ''n'' 9) ''u'' ''conv'' (msg_tool_calls ascending_response) (Map.empty, []) example_state
    = (Inr ([''call_1'' \<mapsto> Result (Deleted_body 1), ''call_2'' \<mapsto> Result (Deleted_body 2)],
            [delete_call ''call_1'' 1, delete_call ''call_2'' 2]),
       \<lparr>mcp = [example_table ! Suc 0, example_table ! 2],
        tool_invocations =
          [\<lparr>inv_conversation_id = ''conv'', inv_tool_name = ''delete_task'',
            inv_parameters = [''task_position'' \<mapsto> JInt 1, ''user_id'' \<mapsto> JStr ''u''],
            inv_result = Result (Deleted_body 1)\<rparr>,
           \<lparr>inv_conversation_id = ''conv'', inv_tool_name = ''delete_task'',
            inv_parameters = [''task_position'' \<mapsto> JInt 2, ''user_id'' \<mapsto> JStr ''u''],
            inv_result = Result (Deleted_body 2)\<rparr>],
        saved_messages = []\<rparr>)"
    by (simp add: ascending_response_def delete_call_def example_state_def Let_def
        call_delete_task example_delete_1 example_delete_2)
  have "msg_tool_calls ascending_response \<noteq> []" by (simp add: ascending_response_def)
  then show ?thesis
    by (simp add: chat_endpoint_def loop text_reply_def issued_delete_positions_def)
       (simp add: example_table_def)
qed

section \<open>The reply when the second model call has no text\<close>

text \<open>
  Claim C9 asks for a confirmation that names the number of operations. The code computes
  the reply as the model's text or else the fixed sentence, and only then tests whether the
  reply is empty: the branch that builds the sentence with the count is never taken. For
  every second response without text, whatever tool calls it has and whatever the count,
  the reply is the fixed sentence; so it is in the turn of two deletions whose second call
  answers with a tool call only.
\<close>

theorem fallback_without_count:
  "final_response_content \<lparr>msg_content = None, msg_tool_calls = tcs\<rparr> n = ''Operation completed successfully.''
   \<and> final_response_content \<lparr>msg_content = Some [], msg_tool_calls = tcs\<rparr> n = ''Operation completed successfully.''
   \<and> map_sum id cr_message (fst (chat_endpoint (mcp_server ''n'' 9) no_text_reply ''u'' ''conv'' []
          ascending_response example_state)) = Inr ''Operation completed successfully.''
   \<and> length (msg_tool_calls ascending_response) = 2
   \<and> ''I've completed '' @ str_nat 2 @ '' task'' @ ''s'' @ '' for you!'' \<noteq> ''Operation completed successfully.''"
proof -
  obtain r st' where loop: "tool_call_loop (mcp_server ''n'' 9) ''u'' ''conv'' (msg_tool_calls ascending_response)
      (Map.empty, []) example_state = (r, st')"
    by (cases "tool_call_loop (mcp_server ''n'' 9) ''u'' ''conv'' (msg_tool_calls ascending_response)
      (Map.empty, []) example_state")
  have dec: "length (decoded_prefix (msg_tool_calls ascending_response)) = 2"
    by (simp add: ascending_response_def delete_call_def)
  have ne: "msg_tool_calls ascending_response \<noteq> []" by (simp add: ascending_response_def)
  have "\<exists>acc. r = Inr acc"
  proof (cases r)
    case (Inl u)
    have "tool_call_loop (mcp_server ''n'' 9) ''u'' ''conv'' (msg_tool_calls ascending_response)
      (Map.empty, []) example_state \<noteq> (Inl u, st')"
      by (simp add: ascending_response_def delete_call_def Let_def split: prod.splits)
    with loop Inl show ?thesis by simp
  qed simp
  then obtain acc where r: "r = Inr acc" by blast
  have "map_sum id cr_message (fst (chat_endpoint (mcp_server ''n'' 9) no_text_reply ''u'' ''conv'' []
          ascending_response example_state)) = Inr ''Operation completed successfully.''"
    using ne loop r by (simp add: chat_endpoint_def no_text_reply_def final_response_content_eq py_or_def)
  moreover have "length (msg_tool_calls ascending_response) = 2" by (simp add: ascending_response_def)
  ultimately show ?thesis
    by (simp add: final_response_content_eq py_or_def str_nat_2)
qed

section \<open>Whose tasks a tool call works on\<close>

text \<open>
  Claim C4 at the input where the model supplies another user's identifier. The loop of
  the agent keeps it: the authenticated \<open>alice\<close> sends the call with \<open>user_id = bob\<close>,
  because the agent adds the identifier only when the key is missing. The chat endpoint on
  the same tool call writes \<open>alice\<close> over it.
\<close>

theorem agent_keeps_model_user_id:
  "agent_tool_loop call ''alice'' [bob_call] w
     = (Inr [(''call_1'', ''delete_task'',
              fst (call ''delete_task'' [''task_position'' \<mapsto> JInt 1, ''user_id'' \<mapsto> JStr ''bob''] w))],
        snd (call ''delete_task'' [''task_position'' \<mapsto> JInt 1, ''user_id'' \<mapsto> JStr ''bob''] w))
   \<and> agent_function_args ''alice'' [''task_position'' \<mapsto> JInt 1, ''user_id'' \<mapsto> JStr ''bob''] ''user_id''
       = Some (JStr ''bob'')
   \<and> agent_function_args ''alice'' [''task_position'' \<mapsto> JInt 1] ''user_id'' = Some (JStr ''alice'')
   \<and> map (\<lambda>i. inv_parameters i ''user_id'')
        (tool_invocations (snd (chat_endpoint post second_call ''alice'' cid msgs
            \<lparr>msg_content = None, msg_tool_calls = [bob_call]\<rparr> st)))
       = map (\<lambda>i. inv_parameters i ''user_id'') (tool_invocations st) @ [Some (JStr ''alice'')]"
proof -
  have a: "agent_tool_loop call ''alice'' [bob_call] w
     = (Inr [(''call_1'', ''delete_task'',
              fst (call ''delete_task'' [''task_position'' \<mapsto> JInt 1, ''user_id'' \<mapsto> JStr ''bob''] w))],
        snd (call ''delete_task'' [''task_position'' \<mapsto> JInt 1, ''user_id'' \<mapsto> JStr ''bob''] w))"
    by (simp add: bob_call_def agent_bob Let_def split: prod.splits)
  have c: "length (decoded_prefix (msg_tool_calls \<lparr>msg_content = None, msg_tool_calls = [bob_call]\<rparr>)) = 1"
    by (simp add: bob_call_def)
  show ?thesis
    using a chat_endpoint_user_ids[of post second_call "''alice''" cid msgs
        "\<lparr>msg_content = None, msg_tool_calls = [bob_call]\<rparr>" st]
    unfolding c by (simp add: agent_function_args_def)
qed

section \<open>Task identifiers in tool results\<close>

text \<open>
  Claim C5, as the code has it. The results of the tools carry the identifier: that of
  the new task for an addition, those of all the owner's tasks for a listing, that of the
  addressed task for an update or a completion; only the confirmation of a deletion carries
  none. The loop saves one invocation per tool call and keeps the results in a cache keyed
  by the call identifier. The second model call gets one tool message per tool call, in the
  order of the calls, each carrying unchanged the result the cache holds for the identifier
  of its call: the result of the last call of the turn with that identifier, and so the
  call's own result whenever the call identifiers of the turn are distinct. With two calls
  under one identifier both tool messages carry the result of the second call. The reply to
  the user holds the model's own tool calls and, as text, the text of the model (of the
  second call when tools ran) or a fixed sentence: the endpoint copies no tool result into
  it.
\<close>

theorem results_fed_back_unchanged:
  "(\<forall>b db'. add_task_tool i n1 n2 \<lparr>add_title = ti, add_description = de, add_user_id = owner\<rparr> db = (Inr b, db')
       \<longrightarrow> result_ids (Result b) = [i] \<and> i \<in> set (map task_id db'))
   \<and> (\<forall>b db'. list_tasks_tool \<lparr>list_user_id = owner\<rparr> db = (Inr b, db')
       \<longrightarrow> set (result_ids (Result b)) = task_id ` set (get_user_tasks owner db))
   \<and> (\<forall>b db'. update_task_tool now ur db = (Inr b, db')
       \<longrightarrow> (\<exists>t\<in>set (get_user_tasks (upd_user_id ur) db). result_ids (Result b) = [task_id t]))
   \<and> (\<forall>b db'. complete_task_tool now cr db = (Inr b, db')
       \<longrightarrow> (\<exists>t\<in>set (get_user_tasks (cmp_user_id cr) db). result_ids (Result b) = [task_id t]))
   \<and> (\<forall>b db'. delete_task_tool dr db = (Inr b, db') \<longrightarrow> result_ids (Result b) = [])
   \<and> (\<forall>acc st'. tool_call_loop post uid cid (msg_tool_calls rm) (Map.empty, []) st = (Inr acc, st')
       \<longrightarrow> second_call_messages post uid cid msgs rm st
             = msgs @ [Assistant_with_tool_calls (msg_content rm) (msg_tool_calls rm)]
                 @ tool_messages (fst acc) (msg_tool_calls rm)
         \<and> List.map_filter tool_call_id_of (tool_messages (fst acc) (msg_tool_calls rm))
             = map tc_id (msg_tool_calls rm)
         \<and> set (List.map_filter tool_result_of (tool_messages (fst acc) (msg_tool_calls rm)))
             \<subseteq> inv_result ` set (drop (length (tool_invocations st)) (tool_invocations st'))
         \<and> length (drop (length (tool_invocations st)) (tool_invocations st')) = length (msg_tool_calls rm)
         \<and> map tool_result_of (tool_messages (fst acc) (msg_tool_calls rm))
             = map (\<lambda>tc. map_of (rev (zip (map tc_id (msg_tool_calls rm))
                     (map inv_result (drop (length (tool_invocations st)) (tool_invocations st')))))
                     (tc_id tc)) (msg_tool_calls rm)
         \<and> (distinct (map tc_id (msg_tool_calls rm)) \<longrightarrow>
              tool_messages (fst acc) (msg_tool_calls rm)
                = map (\<lambda>p. Tool_message (inv_result (snd p)) (tc_id (fst p)))
                    (zip (msg_tool_calls rm) (drop (length (tool_invocations st)) (tool_invocations st')))))
   \<and> (\<forall>resp st'. chat_endpoint post second_call uid cid msgs rm st = (Inr resp, st')
       \<longrightarrow> cr_tool_calls resp = (if msg_tool_calls rm = [] then None else Some (msg_tool_calls rm))
         \<and> (msg_tool_calls rm = [] \<longrightarrow> cr_message resp = py_or (msg_content rm) ''I processed your request.'')
         \<and> (msg_tool_calls rm \<noteq> [] \<longrightarrow>
              (\<exists>fm. second_call (second_call_messages post uid cid msgs rm st) = Some fm
                 \<and> cr_message resp = py_or (msg_content fm) ''Operation completed successfully.'')))"
proof (intro conjI allI impI)
  fix b db'
  assume "add_task_tool i n1 n2 \<lparr>add_title = ti, add_description = de, add_user_id = owner\<rparr> db = (Inr b, db')"
  from add_result_ids[OF this] show "result_ids (Result b) = [i]" "i \<in> set (map task_id db')"
    by simp_all
next
  fix b db'
  assume "list_tasks_tool \<lparr>list_user_id = owner\<rparr> db = (Inr b, db')"
  then show "set (result_ids (Result b)) = task_id ` set (get_user_tasks owner db)"
    by (rule list_result_ids)
next
  fix b db'
  assume "update_task_tool now ur db = (Inr b, db')"
  then show "\<exists>t\<in>set (get_user_tasks (upd_user_id ur) db). result_ids (Result b) = [task_id t]"
    by (rule update_result_ids)
next
  fix b db'
  assume "complete_task_tool now cr db = (Inr b, db')"
  then show "\<exists>t\<in>set (get_user_tasks (cmp_user_id cr) db). result_ids (Result b) = [task_id t]"
    by (rule complete_result_ids)
next
  fix b db'
  assume "delete_task_tool dr db = (Inr b, db')"
  then show "result_ids (Result b) = []" by (rule delete_result_ids)
next
  fix acc st'
  assume loop: "tool_call_loop post uid cid (msg_tool_calls rm) (Map.empty, []) st = (Inr acc, st')"
  show "second_call_messages post uid cid msgs rm st
             = msgs @ [Assistant_with_tool_calls (msg_content rm) (msg_tool_calls rm)]
                 @ tool_messages (fst acc) (msg_tool_calls rm)"
    by (rule second_call_results(1)[OF loop])
  show "List.map_filter tool_call_id_of (tool_messages (fst acc) (msg_tool_calls rm))
             = map tc_id (msg_tool_calls rm)"
    by (rule second_call_results(2)[OF loop])
  show "set (List.map_filter tool_result_of (tool_messages (fst acc) (msg_tool_calls rm)))
             \<subseteq> inv_result ` set (drop (length (tool_invocations st)) (tool_invocations st'))"
    by (rule second_call_results(3)[OF loop])
  show "length (drop (length (tool_invocations st)) (tool_invocations st')) = length (msg_tool_calls rm)"
    by (rule second_call_each_result(1)[OF loop])
  show "map tool_result_of (tool_messages (fst acc) (msg_tool_calls rm))
             = map (\<lambda>tc. map_of (rev (zip (map tc_id (msg_tool_calls rm))
                     (map inv_result (drop (length (tool_invocations st)) (tool_invocations st')))))
                     (tc_id tc)) (msg_tool_calls rm)"
    by (rule second_call_each_result(2)[OF loop])
  from second_call_each_result(3)[OF loop]
  show "distinct (map tc_id (msg_tool_calls rm)) \<Longrightarrow>
              tool_messages (fst acc) (msg_tool_calls rm)
                = map (\<lambda>p. Tool_message (inv_result (snd p)) (tc_id (fst p)))
                    (zip (msg_tool_calls rm) (drop (length (tool_invocations st)) (tool_invocations st')))"
    by simp
next
  fix resp st'
  assume chat: "chat_endpoint post second_call uid cid msgs rm st = (Inr resp, st')"
  show "cr_tool_calls resp = (if msg_tool_calls rm = [] then None else Some (msg_tool_calls rm))"
    by (rule chat_endpoint_reply(1)[OF chat])
  from chat_endpoint_reply(2)[OF chat]
  show "msg_tool_calls rm = [] \<Longrightarrow> cr_message resp = py_or (msg_content rm) ''I processed your request.''"
    by simp
  from chat_endpoint_reply(3)[OF chat]
  show "msg_tool_calls rm \<noteq> [] \<Longrightarrow>
              \<exists>fm. second_call (second_call_messages post uid cid msgs rm st) = Some fm
                 \<and> cr_message resp = py_or (msg_content fm) ''Operation completed successfully.''"
    by simp
qed

theorem results_fed_back_unchanged_witness:
  "(\<exists>b db'. add_task_tool ''t1'' 9 9 \<lparr>add_title = ''Buy milk'', add_description = [], add_user_id = ''u''\<rparr>
        example_table = (Inr b, db') \<and> result_ids (Result b) = [''t1''] \<and> ''t1'' \<in> set (map task_id db'))
   \<and> (\<exists>b db'. delete_task_tool \<lparr>del_task_position = 1, del_user_id = ''u''\<rparr> example_table = (Inr b, db')
        \<and> result_ids (Result b) = [])
   \<and> (\<exists>acc st'. tool_call_loop (mcp_server ''t1'' 9) ''u'' ''conv'' (msg_tool_calls add_response) (Map.empty, [])
          example_state = (Inr acc, st')
        \<and> List.map_filter tool_call_id_of (tool_messages (fst acc) (msg_tool_calls add_response)) = [''call_1''])
   \<and> (\<exists>resp st'. chat_endpoint (mcp_server ''t1'' 9) text_reply ''u'' ''conv'' [] add_response example_state
          = (Inr resp, st')
        \<and> cr_tool_calls resp = Some (msg_tool_calls add_response) \<and> cr_message resp = ''Done.'')
   \<and> (\<exists>acc st'. tool_call_loop (mcp_server ''t1'' 9) ''u'' ''conv''
          (msg_tool_calls (add_then_delete ''call_1'' ''call_2'')) (Map.empty, []) example_state = (Inr acc, st')
        \<and> distinct (map tc_id (msg_tool_calls (add_then_delete ''call_1'' ''call_2'')))
        \<and> tool_messages (fst acc) (msg_tool_calls (add_then_delete ''call_1'' ''call_2''))
            = [Tool_message (Result (Task_body (task_response milk_task))) ''call_1'',
               Tool_message (Result (Deleted_body 1)) ''call_2''])
   \<and> (\<exists>acc st'. tool_call_loop (mcp_server ''t1'' 9) ''u'' ''conv''
          (msg_tool_calls (add_then_delete ''call_1'' ''call_1'')) (Map.empty, []) example_state = (Inr acc, st')
        \<and> map inv_result (tool_invocations st')
            = [Result (Task_body (task_response milk_task)), Result (Deleted_body 1)]
        \<and> milk_task \<in> set (mcp st')
        \<and> map tool_result_of (tool_messages (fst acc) (msg_tool_calls (add_then_delete ''call_1'' ''call_1'')))
            = [Some (Result (Deleted_body 1)), Some (Result (Deleted_body 1))])"
proof -
  note t = results_fed_back_unchanged[where i="''t1''" and ?n1.0=9 and ?n2.0=9 and ti="''Buy milk''"
      and de="[]" and owner="''u''" and db=example_table
      and dr="\<lparr>del_task_position = 1, del_user_id = ''u''\<rparr>" and now=9
      and ur="\<lparr>upd_task_position = 1, upd_user_id = ''u'', upd_title = None, upd_description = None\<rparr>"
      and cr="\<lparr>cmp_task_position = 1, cmp_user_id = ''u'', cmp_completed = True\<rparr>"
      and post="mcp_server ''t1'' 9" and uid="''u''" and cid="''conv''" and rm=add_response
      and st=example_state and msgs="[]" and second_call=text_reply]
  have ne: "msg_tool_calls add_response \<noteq> []" by (simp add: add_response_def)
  have ids: "map tc_id (msg_tool_calls add_response) = [''call_1'']" by (simp add: add_response_def)
  have a: "\<exists>b db'. add_task_tool ''t1'' 9 9 \<lparr>add_title = ''Buy milk'', add_description = [], add_user_id = ''u''\<rparr>
        example_table = (Inr b, db') \<and> result_ids (Result b) = [''t1''] \<and> ''t1'' \<in> set (map task_id db')"
    using t example_add by blast
  have d: "\<exists>b db'. delete_task_tool \<lparr>del_task_position = 1, del_user_id = ''u''\<rparr> example_table = (Inr b, db')
        \<and> result_ids (Result b) = []"
    using t example_delete_1 by blast
  have l: "\<exists>acc st'. tool_call_loop (mcp_server ''t1'' 9) ''u'' ''conv'' (msg_tool_calls add_response) (Map.empty, [])
          example_state = (Inr acc, st')
        \<and> List.map_filter tool_call_id_of (tool_messages (fst acc) (msg_tool_calls add_response)) = [''call_1'']"
    using t add_turn_loop unfolding ids by blast
  obtain resp st' where c: "chat_endpoint (mcp_server ''t1'' 9) text_reply ''u'' ''conv'' [] add_response example_state
          = (Inr resp, st')"
    using add_turn_chat by blast
  with t ne have "cr_tool_calls resp = Some (msg_tool_calls add_response)"
    and "\<exists>fm. text_reply (second_call_messages (mcp_server ''t1'' 9) ''u'' ''conv'' [] add_response example_state) = Some fm
                 \<and> cr_message resp = py_or (msg_content fm) ''Operation completed successfully.''"
    by auto
  then have e: "cr_tool_calls resp = Some (msg_tool_calls add_response) \<and> cr_message resp = ''Done.''"
    by (auto simp: text_reply_def py_or_def)
  note t2 = results_fed_back_unchanged[where i="''t1''" and ?n1.0=9 and ?n2.0=9 and ti="''Buy milk''"
      and de="[]" and owner="''u''" and db=example_table
      and dr="\<lparr>del_task_position = 1, del_user_id = ''u''\<rparr>" and now=9
      and ur="\<lparr>upd_task_position = 1, upd_user_id = ''u'', upd_title = None, upd_description = None\<rparr>"
      and cr="\<lparr>cmp_task_position = 1, cmp_user_id = ''u'', cmp_completed = True\<rparr>"
      and post="mcp_server ''t1'' 9" and uid="''u''" and cid="''conv''"
      and rm="add_then_delete ''call_1'' ''call_2''"
      and st=example_state and msgs="[]" and second_call=text_reply]
  have dist: "distinct (map tc_id (msg_tool_calls (add_then_delete ''call_1'' ''call_2'')))"
    by (simp add: add_then_delete_def delete_call_def)
  have s0: "length (tool_invocations example_state) = 0" by (simp add: example_state_def)
  from t2 add_then_delete_loop[of "''call_1''" "''call_2''"] dist
  have "tool_messages
          (fst ([''call_1'' \<mapsto> Result (Task_body (task_response milk_task)), ''call_2'' \<mapsto> Result (Deleted_body 1)],
                msg_tool_calls (add_then_delete ''call_1'' ''call_2'')))
          (msg_tool_calls (add_then_delete ''call_1'' ''call_2''))
        = map (\<lambda>p. Tool_message (inv_result (snd p)) (tc_id (fst p)))
            (zip (msg_tool_calls (add_then_delete ''call_1'' ''call_2''))
               (drop (length (tool_invocations example_state))
                 [\<lparr>inv_conversation_id = ''conv'', inv_tool_name = ''add_task'',
                   inv_parameters = [''title'' \<mapsto> JStr ''Buy milk'', ''user_id'' \<mapsto> JStr ''u''],
                   inv_result = Result (Task_body (task_response milk_task))\<rparr>,
                  \<lparr>inv_conversation_id = ''conv'', inv_tool_name = ''delete_task'',
                   inv_parameters = [''task_position'' \<mapsto> JInt 1, ''user_id'' \<mapsto> JStr ''u''],
                   inv_result = Result (Deleted_body 1)\<rparr>]))"
    by simp
  then have "tool_messages
          (fst ([''call_1'' \<mapsto> Result (Task_body (task_response milk_task)), ''call_2'' \<mapsto> Result (Deleted_body 1)],
                msg_tool_calls (add_then_delete ''call_1'' ''call_2'')))
          (msg_tool_calls (add_then_delete ''call_1'' ''call_2''))
        = [Tool_message (Result (Task_body (task_response milk_task))) ''call_1'',
           Tool_message (Result (Deleted_body 1)) ''call_2'']"
    unfolding s0 by (simp add: add_then_delete_def delete_call_def)
  with dist add_then_delete_loop[of "''call_1''" "''call_2''"]
  have two: "\<exists>acc st'. tool_call_loop (mcp_server ''t1'' 9) ''u'' ''conv''
          (msg_tool_calls (add_then_delete ''call_1'' ''call_2'')) (Map.empty, []) example_state = (Inr acc, st')
        \<and> distinct (map tc_id (msg_tool_calls (add_then_delete ''call_1'' ''call_2'')))
        \<and> tool_messages (fst acc) (msg_tool_calls (add_then_delete ''call_1'' ''call_2''))
            = [Tool_message (Result (Task_body (task_response milk_task))) ''call_1'',
               Tool_message (Result (Deleted_body 1)) ''call_2'']"
    by blast
  note t3 = results_fed_back_unchanged[where i="''t1''" and ?n1.0=9 and ?n2.0=9 and ti="''Buy milk''"
      and de="[]" and owner="''u''" and db=example_table
      and dr="\<lparr>del_task_position = 1, del_user_id = ''u''\<rparr>" and now=9
      and ur="\<lparr>upd_task_position = 1, upd_user_id = ''u'', upd_title = None, upd_description = None\<rparr>"
      and cr="\<lparr>cmp_task_position = 1, cmp_user_id = ''u'', cmp_completed = True\<rparr>"
      and post="mcp_server ''t1'' 9" and uid="''u''" and cid="''conv''"
      and rm="add_then_delete ''call_1'' ''call_1''"
      and st=example_state and msgs="[]" and second_call=text_reply]
  from t3 add_then_delete_loop[of "''call_1''" "''call_1''"]
  have "map tool_result_of (tool_messages
          (fst ([''call_1'' \<mapsto> Result (Task_body (task_response milk_task)), ''call_1'' \<mapsto> Result (Deleted_body 1)],
                msg_tool_calls (add_then_delete ''call_1'' ''call_1'')))
          (msg_tool_calls (add_then_delete ''call_1'' ''call_1'')))
        = map (\<lambda>tc. map_of (rev (zip (map tc_id (msg_tool_calls (add_then_delete ''call_1'' ''call_1'')))
                 (map inv_result (drop (length (tool_invocations example_state))
                 [\<lparr>inv_conversation_id = ''conv'', inv_tool_name = ''add_task'',
                   inv_parameters = [''title'' \<mapsto> JStr ''Buy milk'', ''user_id'' \<mapsto> JStr ''u''],
                   inv_result = Result (Task_body (task_response milk_task))\<rparr>,
                  \<lparr>inv_conversation_id = ''conv'', inv_tool_name = ''delete_task'',
                   inv_parameters = [''task_position'' \<mapsto> JInt 1, ''user_id'' \<mapsto> JStr ''u''],
                   inv_result = Result (Deleted_body 1)\<rparr>]))))
                 (tc_id tc)) (msg_tool_calls (add_then_delete ''call_1'' ''call_1''))"
    by simp
  then have "map tool_result_of (tool_messages
          (fst ([''call_1'' \<mapsto> Result (Task_body (task_response milk_task)), ''call_1'' \<mapsto> Result (Deleted_body 1)],
                msg_tool_calls (add_then_delete ''call_1'' ''call_1'')))
          (msg_tool_calls (add_then_delete ''call_1'' ''call_1'')))
        = [Some (Result (Deleted_body 1)), Some (Result (Deleted_body 1))]"
    unfolding s0 by (simp add: add_then_delete_def delete_call_def)
  with add_then_delete_loop[of "''call_1''" "''call_1''"]
  have same: "\<exists>acc st'. tool_call_loop (mcp_server ''t1'' 9) ''u'' ''conv''
          (msg_tool_calls (add_then_delete ''call_1'' ''call_1'')) (Map.empty, []) example_state = (Inr acc, st')
        \<and> map inv_result (tool_invocations st')
            = [Result (Task_body (task_response milk_task)), Result (Deleted_body 1)]
        \<and> milk_task \<in> set (mcp st')
        \<and> map tool_result_of (tool_messages (fst acc) (msg_tool_calls (add_then_delete ''call_1'' ''call_1'')))
            = [Some (Result (Deleted_body 1)), Some (Result (Deleted_body 1))]"
    by simp
  from c a d l e two same show ?thesis by blast
qed

text \<open>
  The claim as stated fails: in a turn that adds a task, the messages of the second model
  call contain the identifier under which the row was stored.
\<close>

theorem identifier_reaches_the_model:
  "concat (map message_ids (second_call_messages (mcp_server ''t1'' 9) ''u'' ''conv'' []
       add_response example_state)) = [''t1'']
   \<and> map task_id (mcp (snd (chat_endpoint (mcp_server ''t1'' 9) text_reply ''u'' ''conv'' []
       add_response example_state))) = [''a'', ''x'', ''b'', ''c'', ''t1'']"
proof -
  have ne: "msg_tool_calls add_response \<noteq> []" by (simp add: add_response_def)
  have "concat (map message_ids (second_call_messages (mcp_server ''t1'' 9) ''u'' ''conv'' []
       add_response example_state)) = [''t1'']"
    by (simp add: second_call_messages_def add_turn_loop api_messages_def tool_messages_def)
       (simp add: add_response_def task_response_def)
  moreover have "map task_id (mcp (snd (chat_endpoint (mcp_server ''t1'' 9) text_reply ''u'' ''conv'' []
       add_response example_state))) = [''a'', ''x'', ''b'', ''c'', ''t1'']"
    using ne by (simp add: chat_endpoint_def add_turn_loop text_reply_def) (simp add: example_table_def)
  ultimately show ?thesis by simp
qed

end
